theory Spec2Isabelle
  imports Complex_Main "HOL-Library.Word" "HOL-Library.Monad_Syntax"
begin

section \<open>The audio manager of openwhispr: capture, voice gate, transcription dispatch\<close>

text \<open>
  The development embeds the class \<open>AudioManager\<close>: its fields are a record, each method
  is a function from the record (and the answers of the collaborators the method talks to)
  to the updated record and the method's outcome. A thrown \<open>Error(msg)\<close> is the value
  \<open>Inl msg\<close>; the callbacks the class fires are collected in a list of signals.
\<close>

subsection \<open>JavaScript strings\<close>

text \<open>
  Strings are lists of characters. \<open>String.prototype.trim\<close> removes white space and line
  terminators at both ends; on the 8-bit characters of the model these are tab, line feed,
  vertical tab, form feed, carriage return, space and the no-break space.
\<close>

definition is_ws :: "char \<Rightarrow> bool" where
  "is_ws c = (c = CHR '' '' \<or> c = CHR 0x09 \<or> c = CHR 0x0A \<or> c = CHR 0x0B \<or> c = CHR 0x0C \<or> c = CHR 0x0D
              \<or> c = CHR 0xA0)"

definition trim :: "string \<Rightarrow> string" where
  "trim s = rev (dropWhile is_ws (rev (dropWhile is_ws s)))"

text \<open>\<open>s.startsWith(p)\<close>, \<open>s.includes(p)\<close> and \<open>s.slice(n)\<close> for \<open>0 \<le> n\<close>.\<close>

fun startsWith :: "string \<Rightarrow> string \<Rightarrow> bool" where
  "startsWith s [] = True"
| "startsWith [] (p # ps) = False"
| "startsWith (c # cs) (p # ps) = (c = p \<and> startsWith cs ps)"

fun includes_str :: "string \<Rightarrow> string \<Rightarrow> bool" where
  "includes_str [] p = (p = [])"
| "includes_str (c # cs) p = (startsWith (c # cs) p \<or> includes_str cs p)"

definition slice :: "nat \<Rightarrow> string \<Rightarrow> string" where
  "slice n s = drop n s"

text \<open>
  \<open>a || b\<close> on strings: the empty string, \<open>null\<close> and \<open>undefined\<close> are falsy.
  \<open>localStorage.getItem(k) || d\<close> is \<open>item_or\<close>.
\<close>

definition truthy :: "string option \<Rightarrow> bool" where
  "truthy v = (case v of None \<Rightarrow> False | Some s \<Rightarrow> s \<noteq> [])"

definition item_or :: "string option \<Rightarrow> string \<Rightarrow> string" where
  "item_or v d = (case v of None \<Rightarrow> d | Some s \<Rightarrow> if s = [] then d else s)"

subsection \<open>JavaScript numbers\<close>

text \<open>
  A Number is an IEEE 754 double: a finite value, an infinity or NaN. A finite double is
  its value, a real number; the two zeros are one value (nothing the detector computes
  tells them apart: it never divides by a computed zero), and a divisor zero is \<open>+0\<close>.
  Every arithmetic operation computes the exact result and rounds it to the nearest
  double, ties to the even significand.

  \<open>pow2 k\<close> is \<open>2^k\<close>; \<open>bit_length n\<close> is the number of binary digits of \<open>n\<close>, and
  \<open>ilog2 a\<close> the exponent \<open>e\<close> with \<open>2^e \<le> a < 2^(e+1)\<close>, for \<open>a > 0\<close>.
\<close>

datatype double = Finite real | PosInf | NegInf | NaN

definition pow2 :: "int \<Rightarrow> real" where
  "pow2 k = (if 0 \<le> k then 2 ^ nat k else 1 / 2 ^ nat (- k))"

function bit_length :: "int \<Rightarrow> int" where
  "bit_length n = (if n \<le> 0 then 0 else 1 + bit_length (n div 2))"
  by pat_completeness auto
termination
  by (relation "measure nat") auto

definition ilog2 :: "real \<Rightarrow> int" where
  "ilog2 a = (if 1 \<le> a then bit_length \<lfloor>a\<rfloor> - 1 else - bit_length (\<lceil>1 / a\<rceil> - 1))"

text \<open>
  Rounding a positive real to a double. The doubles around \<open>a\<close> are the multiples of
  \<open>2^p\<close>, where \<open>p\<close> is the exponent of \<open>a\<close> (at least \<open>-1022\<close>, where the subnormal
  numbers begin) less the 52 fraction bits; a rounded value of \<open>2^1024\<close> or more is an
  infinity.
\<close>

definition round_half_even :: "real \<Rightarrow> int" where
  "round_half_even x =
     (if x - of_int \<lfloor>x\<rfloor> < 1 / 2 then \<lfloor>x\<rfloor>
      else if 1 / 2 < x - of_int \<lfloor>x\<rfloor> then \<lfloor>x\<rfloor> + 1
      else if even \<lfloor>x\<rfloor> then \<lfloor>x\<rfloor> else \<lfloor>x\<rfloor> + 1)"

definition round_to :: "int \<Rightarrow> real \<Rightarrow> real" where
  "round_to p a = of_int (round_half_even (a / pow2 p)) * pow2 p"

definition ulp_exponent :: "real \<Rightarrow> int" where
  "ulp_exponent a = max (ilog2 a) (- 1022) - 52"

definition finite_or_inf :: "real \<Rightarrow> double" where
  "finite_or_inf v =
     (if pow2 1024 \<le> v then PosInf else if v \<le> - pow2 1024 then NegInf else Finite v)"

definition round_double :: "real \<Rightarrow> double" where
  "round_double q =
     (if q = 0 then Finite 0
      else if 0 < q then finite_or_inf (round_to (ulp_exponent q) q)
      else finite_or_inf (- round_to (ulp_exponent (- q)) (- q)))"

text \<open>\<open>x + y\<close>, \<open>x * y\<close> and \<open>x / y\<close>.\<close>

fun dadd :: "double \<Rightarrow> double \<Rightarrow> double" where
  "dadd (Finite a) (Finite b) = round_double (a + b)"
| "dadd NaN y = NaN"
| "dadd x NaN = NaN"
| "dadd PosInf NegInf = NaN"
| "dadd NegInf PosInf = NaN"
| "dadd PosInf y = PosInf"
| "dadd x PosInf = PosInf"
| "dadd NegInf y = NegInf"
| "dadd x NegInf = NegInf"

fun dmul :: "double \<Rightarrow> double \<Rightarrow> double" where
  "dmul (Finite a) (Finite b) = round_double (a * b)"
| "dmul NaN y = NaN"
| "dmul x NaN = NaN"
| "dmul (Finite a) PosInf = (if a = 0 then NaN else if 0 < a then PosInf else NegInf)"
| "dmul (Finite a) NegInf = (if a = 0 then NaN else if 0 < a then NegInf else PosInf)"
| "dmul PosInf (Finite b) = (if b = 0 then NaN else if 0 < b then PosInf else NegInf)"
| "dmul NegInf (Finite b) = (if b = 0 then NaN else if 0 < b then NegInf else PosInf)"
| "dmul PosInf PosInf = PosInf"
| "dmul NegInf NegInf = PosInf"
| "dmul PosInf NegInf = NegInf"
| "dmul NegInf PosInf = NegInf"

fun ddiv :: "double \<Rightarrow> double \<Rightarrow> double" where
  "ddiv (Finite a) (Finite b) =
     (if b = 0 then (if a = 0 then NaN else if 0 < a then PosInf else NegInf)
      else round_double (a / b))"
| "ddiv NaN y = NaN"
| "ddiv x NaN = NaN"
| "ddiv (Finite a) y = Finite 0"
| "ddiv PosInf (Finite b) = (if 0 \<le> b then PosInf else NegInf)"
| "ddiv NegInf (Finite b) = (if 0 \<le> b then NegInf else PosInf)"
| "ddiv x y = NaN"

text \<open>
  \<open>Math.sqrt\<close>, correctly rounded as the engines compute it. \<open>isqrt n\<close> is the integer
  square root; the root of \<open>a\<close> has the exponent \<open>\<lfloor>e / 2\<rfloor>\<close> and is never subnormal,
  and the root of a double is never half-way between two doubles.
\<close>

definition isqrt_step :: "int \<Rightarrow> int \<Rightarrow> int" where
  "isqrt_step n r = (if (r + 1) * (r + 1) \<le> n then r + 1 else r)"

function isqrt :: "int \<Rightarrow> int" where
  "isqrt n = (if n \<le> 0 then 0 else isqrt_step n (2 * isqrt (n div 4)))"
  by pat_completeness auto
termination
  by (relation "measure nat") auto

definition round_root :: "real \<Rightarrow> int \<Rightarrow> int" where
  "round_root s n =
     (if s < (of_int n + 1 / 2) * (of_int n + 1 / 2) then n
      else if (of_int n + 1 / 2) * (of_int n + 1 / 2) < s then n + 1
      else if even n then n else n + 1)"

definition sqrt_to :: "int \<Rightarrow> real \<Rightarrow> real" where
  "sqrt_to p a =
     of_int (round_root (a / pow2 (2 * p)) (isqrt \<lfloor>a / pow2 (2 * p)\<rfloor>)) * pow2 p"

fun dsqrt :: "double \<Rightarrow> double" where
  "dsqrt (Finite a) =
     (if a < 0 then NaN else if a = 0 then Finite 0
      else Finite (sqrt_to (ilog2 a div 2 - 52) a))"
| "dsqrt PosInf = PosInf"
| "dsqrt x = NaN"

text \<open>\<open>x < y\<close> and \<open>x <= y\<close>; \<open>x > y\<close> is \<open>dless y x\<close>. A comparison with NaN is false.\<close>

fun dless :: "double \<Rightarrow> double \<Rightarrow> bool" where
  "dless (Finite a) (Finite b) = (a < b)"
| "dless NaN y = False"
| "dless x NaN = False"
| "dless x NegInf = False"
| "dless NegInf y = True"
| "dless PosInf y = False"
| "dless x PosInf = True"

fun dle :: "double \<Rightarrow> double \<Rightarrow> bool" where
  "dle (Finite a) (Finite b) = (a \<le> b)"
| "dle NaN y = False"
| "dle x NaN = False"
| "dle NegInf y = True"
| "dle x PosInf = True"
| "dle x y = False"

subsection \<open>The fields of the manager\<close>

text \<open>
  The constructor's fields, without the callbacks (they are the signals below) and without
  the handles on browser objects. A field that holds \<open>null\<close> is \<open>None\<close>. Of the
  \<open>MediaRecorder\<close> the class asks one thing, \<open>mediaRecorder?.state === "recording"\<close>:
  that is \<open>mediaRecorderRecording\<close>.
\<close>

record manager =
  mediaRecorderRecording :: bool
  isRecording :: bool
  isProcessing :: bool
  cachedApiKey :: "string option"
  cachedApiKeyProvider :: "string option"
  cachedTranscriptionEndpoint :: "string option"
  cachedEndpointProvider :: "string option"
  cachedEndpointBaseUrl :: "string option"
  recordingStartTime :: "nat option"
  reasoningCacheValue :: bool
  reasoningCacheExpiresAt :: nat
  cachedReasoningPreference :: "string option"
  currentAudioLevel :: double
  peakAudioLevel :: double
  voiceDetected :: bool
  speechDuration :: double
  lastVoiceTime :: nat

definition new_manager :: manager where
  "new_manager =
     \<lparr> mediaRecorderRecording = False, isRecording = False, isProcessing = False,
       cachedApiKey = None, cachedApiKeyProvider = None,
       cachedTranscriptionEndpoint = None, cachedEndpointProvider = None,
       cachedEndpointBaseUrl = None, recordingStartTime = None,
       reasoningCacheValue = False, reasoningCacheExpiresAt = 0,
       cachedReasoningPreference = None,
       currentAudioLevel = Finite 0, peakAudioLevel = Finite 0, voiceDetected = False,
       speechDuration = Finite 0, lastVoiceTime = 0 \<rparr>"

subsection \<open>Voice activity detection\<close>

text \<open>
  \<open>VAD_CONFIG\<close>. A decimal literal denotes the double nearest to it.
\<close>

definition VOICE_THRESHOLD :: double where
  "VOICE_THRESHOLD = round_double 0.04"

definition MIN_SPEECH_DURATION :: double where
  "MIN_SPEECH_DURATION = round_double 0.5"

definition ANALYSIS_INTERVAL :: double where
  "ANALYSIS_INTERVAL = Finite 50"

text \<open>
  The body of the interval callback of \<open>startVADMonitoring\<close>. \<open>dataArray\<close> is what
  \<open>getByteFrequencyData\<close> filled in, one byte per frequency bin (the analyser has
  \<open>FFT_SIZE / 2 = 1024\<close> of them; a typed array has fewer than \<open>2^53\<close> elements, so
  its length is a double), \<open>now\<close> is \<open>Date.now()\<close>. \<open>rms_level\<close> is the loop
  over the bins and the root of the mean.
\<close>

definition normalized :: "8 word \<Rightarrow> double" where
  "normalized b = ddiv (Finite (real (unat b))) (Finite 255)"

definition rms_level :: "8 word list \<Rightarrow> double" where
  "rms_level dataArray =
     dsqrt (ddiv (foldl (\<lambda>sum b. dadd sum (dmul (normalized b) (normalized b)))
                    (Finite 0) dataArray)
                 (Finite (real (length dataArray))))"

text \<open>The object handed to \<open>onVADStateChange\<close> on every tick.\<close>

record vad_notification =
  n_audioLevel :: double
  n_peakLevel :: double
  n_voiceDetected :: bool
  n_isVoiceActive :: bool
  n_speechDuration :: double

definition vad_tick :: "nat \<Rightarrow> 8 word list \<Rightarrow> manager \<Rightarrow> manager \<times> vad_notification" where
  "vad_tick now dataArray m =
     (let rms = rms_level dataArray;
          m1 = m\<lparr>currentAudioLevel :=
                   dadd (dmul (currentAudioLevel m) (round_double 0.7))
                        (dmul rms (round_double 0.3))\<rparr>;
          m2 = (if dless (peakAudioLevel m1) (currentAudioLevel m1)
                then m1\<lparr>peakAudioLevel := currentAudioLevel m1\<rparr> else m1);
          isVoiceNow = dless VOICE_THRESHOLD (currentAudioLevel m2);
          m3 = (if isVoiceNow
                then m2\<lparr>lastVoiceTime := now, voiceDetected := True,
                        speechDuration :=
                          dadd (speechDuration m2) (ddiv ANALYSIS_INTERVAL (Finite 1000))\<rparr>
                else m2)
      in (m3, \<lparr> n_audioLevel = currentAudioLevel m3, n_peakLevel = peakAudioLevel m3,
                n_voiceDetected = voiceDetected m3, n_isVoiceActive = isVoiceNow,
                n_speechDuration = speechDuration m3 \<rparr>))"

text \<open>
  \<open>startVADMonitoring\<close>: the audio graph is built inside a \<open>try\<close>; when building it throws
  (\<open>graph_ok = False\<close>) the error is logged, the fields keep their values and no tick ever
  runs for this stream. Otherwise the five fields are reset and the interval starts.
\<close>

definition startVADMonitoring :: "bool \<Rightarrow> manager \<Rightarrow> manager" where
  "startVADMonitoring graph_ok m =
     (if graph_ok
      then m\<lparr>currentAudioLevel := Finite 0, peakAudioLevel := Finite 0,
             voiceDetected := False, speechDuration := Finite 0, lastVoiceTime := 0\<rparr>
      else m)"

text \<open>The ticks of one session, in order; each is the time and the frequency data read.\<close>

definition vad_run :: "(nat \<times> 8 word list) list \<Rightarrow> manager \<Rightarrow> manager" where
  "vad_run ticks m = foldl (\<lambda>s t. fst (vad_tick (fst t) (snd t) s)) m ticks"

text \<open>The manager after the first \<open>k\<close> ticks of a session that started from \<open>m0\<close>.\<close>

definition session_after :: "manager \<Rightarrow> (nat \<times> 8 word list) list \<Rightarrow> nat \<Rightarrow> manager" where
  "session_after m0 ticks k = vad_run (take k ticks) (startVADMonitoring True m0)"

text \<open>\<open>stopVADMonitoring\<close> returns the final statistics; the fields are not reset.\<close>

record vad_stats =
  s_peakLevel :: double
  s_voiceDetected :: bool
  s_speechDuration :: double

definition stopVADMonitoring :: "manager \<Rightarrow> vad_stats \<times> manager" where
  "stopVADMonitoring m =
     (\<lparr> s_peakLevel = peakAudioLevel m, s_voiceDetected = voiceDetected m,
        s_speechDuration = speechDuration m \<rparr>, m)"

definition hasValidAudioContent :: "manager \<Rightarrow> bool" where
  "hasValidAudioContent m =
     (voiceDetected m \<and> dle MIN_SPEECH_DURATION (speechDuration m)
      \<and> dless VOICE_THRESHOLD (peakAudioLevel m))"

subsection \<open>The collaborators\<close>

text \<open>
  What a local engine returns: \<open>{success, text?, message?, error?}\<close>. A field that is
  absent (or not of the type the code compares it with) is \<open>None\<close>.
\<close>

record local_result =
  r_success :: "bool option"
  r_text :: "string option"
  r_message :: "string option"
  r_error :: "string option"

text \<open>
  Everything outside the class that the methods read or call. An asynchronous call answers
  \<open>Inl msg\<close> when its promise rejects with \<open>Error(msg)\<close>.

  \<^item> \<open>localStorage\<close>: \<open>getItem\<close>; \<open>dateNow\<close>: \<open>Date.now()\<close>.
  \<^item> \<open>getOpenAIKey\<close>, \<open>getGroqKey\<close>, \<open>getCustomTranscriptionKey\<close>,
    \<open>transcribeLocalWhisper\<close>, \<open>transcribeLocalParakeet\<close>: \<open>window.electronAPI\<close>. The
    engines answer for the audio of the session; their argument here is the model asked for.
  \<^item> \<open>reasoningIsAvailable\<close>, \<open>reasoningProcessText\<close>: \<open>ReasoningService\<close>.
  \<^item> \<open>cloudExchange endpoint apiKey\<close>: the request of \<open>processWithOpenAIAPI\<close> to the
    endpoint and the decoding of the response body, up to the value of \<open>result.text\<close>:
    \<open>Inl msg\<close> when \<open>fetch\<close> rejects, the status is not ok, the body does not parse or
    reading it throws; \<open>Inr (Some t)\<close> when \<open>result.text\<close> is the string \<open>t\<close>;
    \<open>Inr None\<close> when it is missing.
  \<^item> \<open>TRANSCRIPTION_BASE\<close>, \<open>GROQ_BASE\<close>, \<open>TRANSCRIPTION\<close>: the constants of
    \<open>API_ENDPOINTS\<close>; \<open>normalizeBaseUrl\<close>, \<open>buildApiUrl\<close>, \<open>isSecureEndpoint\<close>: the
    functions imported from \<open>config/constants\<close> and \<open>utils/urlUtils\<close>. Their sources are
    not part of the files embedded here, so they are parameters; \<open>normalizeBaseUrl\<close> may
    answer a falsy value (\<open>None\<close> or the empty string).
\<close>

record world =
  localStorage :: "string \<Rightarrow> string option"
  dateNow :: nat
  getOpenAIKey :: "string + string option"
  getGroqKey :: "string + string option"
  getCustomTranscriptionKey :: "string + string option"
  transcribeLocalWhisper :: "string \<Rightarrow> string + local_result"
  transcribeLocalParakeet :: "string \<Rightarrow> string + local_result"
  reasoningIsAvailable :: "string + bool"
  reasoningProcessText :: "string \<Rightarrow> string \<Rightarrow> string option \<Rightarrow> string + string"
  cloudExchange :: "string \<Rightarrow> string option \<Rightarrow> string + string option"
  TRANSCRIPTION_BASE :: string
  GROQ_BASE :: string
  TRANSCRIPTION :: string
  normalizeBaseUrl :: "string \<Rightarrow> string + string option"
  buildApiUrl :: "string \<Rightarrow> string \<Rightarrow> string + string"
  isSecureEndpoint :: "string \<Rightarrow> string + bool"

definition cloudProvider :: "world \<Rightarrow> string" where
  "cloudProvider w = item_or (localStorage w ''cloudTranscriptionProvider'') ''openai''"

subsection \<open>The API key and its cache\<close>

definition PLACEHOLDER_KEYS :: "string \<Rightarrow> string option" where
  "PLACEHOLDER_KEYS =
     [''openai'' \<mapsto> ''your_openai_api_key_here'', ''groq'' \<mapsto> ''your_groq_api_key_here'']"

definition isValidApiKey :: "string option \<Rightarrow> string \<Rightarrow> bool" where
  "isValidApiKey key provider =
     (case key of
        None \<Rightarrow> False
      | Some k \<Rightarrow>
          if k = [] \<or> trim k = [] then False
          else k \<noteq> item_or (PLACEHOLDER_KEYS provider) ''your_openai_api_key_here'')"

text \<open>
  The part of \<open>getAPIKey\<close> after the cache check: the key for the provider, from the
  native store first and from \<open>localStorage\<close> second. For \<open>custom\<close> an absent key is
  \<open>null\<close> (\<open>Inr None\<close>); for the others it is an error.
\<close>

definition retrieveApiKey :: "world \<Rightarrow> string \<Rightarrow> string + string option" where
  "retrieveApiKey w provider =
     (if provider = ''custom'' then
        (let apiKey0 = (case getCustomTranscriptionKey w of Inl err \<Rightarrow> None | Inr k \<Rightarrow> k);
             apiKey1 = (if \<not> truthy apiKey0 \<or> trim (item_or apiKey0 []) = []
                        then item_or (localStorage w ''customTranscriptionApiKey'') []
                        else item_or apiKey0 []);
             apiKey2 = trim apiKey1
         in if apiKey2 = [] then Inr None else Inr (Some apiKey2))
      else if provider = ''groq'' then
        (case getGroqKey w of
           Inl err \<Rightarrow> Inl err
         | Inr k0 \<Rightarrow>
             (let k1 = (if \<not> isValidApiKey k0 ''groq'' then localStorage w ''groqApiKey'' else k0)
              in if \<not> isValidApiKey k1 ''groq''
                 then Inl ''Groq API key not found. Please set your API key in the Control Panel.''
                 else Inr k1))
      else
        (case getOpenAIKey w of
           Inl err \<Rightarrow> Inl err
         | Inr k0 \<Rightarrow>
             (let k1 = (if \<not> isValidApiKey k0 ''openai'' then localStorage w ''openaiApiKey'' else k0)
              in if \<not> isValidApiKey k1 ''openai''
                 then Inl ''OpenAI API key not found. Please set your API key in the .env file or Control Panel.''
                 else Inr k1)))"

definition getAPIKey :: "world \<Rightarrow> manager \<Rightarrow> (string + string option) \<times> manager" where
  "getAPIKey w m =
     (let provider = cloudProvider w in
      if cachedApiKey m \<noteq> None \<and> cachedApiKeyProvider m = Some provider
      then (Inr (cachedApiKey m), m)
      else (case retrieveApiKey w provider of
              Inl err \<Rightarrow> (Inl err, m)
            | Inr apiKey \<Rightarrow>
                (Inr apiKey, m\<lparr>cachedApiKey := apiKey, cachedApiKeyProvider := Some provider\<rparr>)))"

subsection \<open>The transcription endpoint and its cache\<close>

text \<open>The test \<open>/\/audio\/(transcriptions|translations)$/i\<close>.\<close>

definition lower_char :: "char \<Rightarrow> char" where
  "lower_char c =
     (case map_of (zip ''ABCDEFGHIJKLMNOPQRSTUVWXYZ'' ''abcdefghijklmnopqrstuvwxyz'') c of
        Some l \<Rightarrow> l
      | None \<Rightarrow> c)"

definition endsWith :: "string \<Rightarrow> string \<Rightarrow> bool" where
  "endsWith s p = startsWith (rev s) (rev p)"

definition has_audio_path :: "string \<Rightarrow> bool" where
  "has_audio_path s =
     (endsWith (map lower_char s) ''/audio/transcriptions''
      \<or> endsWith (map lower_char s) ''/audio/translations'')"

text \<open>
  The body of the \<open>try\<close> of \<open>getTranscriptionEndpoint\<close>, in its two steps: the choice of
  the base, and the endpoint built on it. \<open>Inl\<close> stands for an exception of one of the
  imported functions. \<open>isSecureEndpoint\<close> is called for the custom provider only.
\<close>

definition storedBaseUrl :: "world \<Rightarrow> string" where
  "storedBaseUrl w = item_or (localStorage w ''cloudTranscriptionBaseUrl'') []"

definition chooseBase :: "world \<Rightarrow> string \<Rightarrow> string \<Rightarrow> string" where
  "chooseBase w currentProvider currentBaseUrl =
     (if currentProvider = ''custom''
      then (if trim currentBaseUrl = [] then TRANSCRIPTION_BASE w else trim currentBaseUrl)
      else if currentProvider = ''groq'' then GROQ_BASE w
      else TRANSCRIPTION_BASE w)"

definition endpointFromBase :: "world \<Rightarrow> bool \<Rightarrow> string \<Rightarrow> string + string" where
  "endpointFromBase w isCustomEndpoint base =
     (case normalizeBaseUrl w base of
        Inl err \<Rightarrow> Inl err
      | Inr nb \<Rightarrow>
          if \<not> truthy nb then Inr (TRANSCRIPTION w)
          else (let normalizedBase = item_or nb [];
                    build = (if has_audio_path normalizedBase then Inr normalizedBase
                             else buildApiUrl w normalizedBase ''/audio/transcriptions'')
                in if isCustomEndpoint
                   then (case isSecureEndpoint w normalizedBase of
                           Inl err \<Rightarrow> Inl err
                         | Inr secure \<Rightarrow> if \<not> secure then Inr (TRANSCRIPTION w) else build)
                   else build))"

text \<open>The \<open>catch\<close>: every failure of the resolution gives the default endpoint.\<close>

definition resolveEndpoint :: "world \<Rightarrow> string \<Rightarrow> string \<Rightarrow> string" where
  "resolveEndpoint w currentProvider currentBaseUrl =
     (case endpointFromBase w (currentProvider = ''custom'')
             (chooseBase w currentProvider currentBaseUrl) of
        Inl err \<Rightarrow> TRANSCRIPTION w
      | Inr endpoint \<Rightarrow> endpoint)"

definition getTranscriptionEndpoint :: "world \<Rightarrow> manager \<Rightarrow> string \<times> manager" where
  "getTranscriptionEndpoint w m =
     (let currentProvider = cloudProvider w;
          currentBaseUrl = storedBaseUrl w;
          m1 = (if truthy (cachedTranscriptionEndpoint m)
                   \<and> (cachedEndpointProvider m \<noteq> Some currentProvider
                        \<or> cachedEndpointBaseUrl m \<noteq> Some currentBaseUrl)
                then m\<lparr>cachedTranscriptionEndpoint := None\<rparr> else m)
      in if truthy (cachedTranscriptionEndpoint m1)
         then (item_or (cachedTranscriptionEndpoint m1) [], m1)
         else (let endpoint = resolveEndpoint w currentProvider currentBaseUrl
               in (endpoint, m1\<lparr>cachedTranscriptionEndpoint := Some endpoint,
                                cachedEndpointProvider := Some currentProvider,
                                cachedEndpointBaseUrl := Some currentBaseUrl\<rparr>)))"

text \<open>
  What the three cache fields hold between calls: nothing, or the endpoint resolved for
  the provider and the base URL they are keyed on. The constructor establishes it and
  \<open>getTranscriptionEndpoint\<close>, the only method that writes the fields, keeps it.
\<close>

definition endpoint_cache_ok :: "world \<Rightarrow> manager \<Rightarrow> bool" where
  "endpoint_cache_ok w m =
     (if truthy (cachedTranscriptionEndpoint m)
      then (case (cachedEndpointProvider m, cachedEndpointBaseUrl m) of
              (Some p, Some b) \<Rightarrow> cachedTranscriptionEndpoint m = Some (resolveEndpoint w p b)
            | _ \<Rightarrow> False)
      else True)"

subsection \<open>Reasoning post-processing\<close>

definition REASONING_CACHE_TTL :: nat where
  "REASONING_CACHE_TTL = 30000"

definition isReasoningAvailable :: "world \<Rightarrow> manager \<Rightarrow> bool \<times> manager" where
  "isReasoningAvailable w m =
     (let storedValue = localStorage w ''useReasoningModel'';
          now = dateNow w;
          cacheValid = (now < reasoningCacheExpiresAt m
                        \<and> cachedReasoningPreference m = storedValue)
      in if cacheValid then (reasoningCacheValue m, m)
         else (let useReasoning = (storedValue = Some ''true''
                                    \<or> (truthy storedValue \<and> storedValue \<noteq> Some ''false''));
                   store = (\<lambda>v. m\<lparr>reasoningCacheValue := v,
                                    reasoningCacheExpiresAt := now + REASONING_CACHE_TTL,
                                    cachedReasoningPreference := storedValue\<rparr>)
               in if \<not> useReasoning then (False, store False)
                  else (case reasoningIsAvailable w of
                          Inr isAvailable \<Rightarrow> (isAvailable, store isAvailable)
                        | Inl err \<Rightarrow> (False, store False))))"

text \<open>\<open>processWithReasoningModel\<close> logs and rethrows what \<open>ReasoningService.processText\<close> throws.\<close>

definition processWithReasoningModel ::
    "world \<Rightarrow> string \<Rightarrow> string \<Rightarrow> string option \<Rightarrow> string + string" where
  "processWithReasoningModel w text model agentName =
     (case reasoningProcessText w text model agentName of
        Inr result \<Rightarrow> Inr result
      | Inl err \<Rightarrow> Inl err)"

definition processTranscription :: "world \<Rightarrow> manager \<Rightarrow> string \<Rightarrow> string \<Rightarrow> string \<times> manager" where
  "processTranscription w m text source =
     (let normalizedText = trim text;
          reasoningModel = item_or (localStorage w ''reasoningModel'') [];
          agentName = (if truthy (localStorage w ''agentName'')
                       then localStorage w ''agentName'' else None)
      in if reasoningModel = [] then (normalizedText, m)
         else (case isReasoningAvailable w m of
                 (useReasoning, m1) \<Rightarrow>
                   if useReasoning
                   then (case processWithReasoningModel w normalizedText reasoningModel agentName of
                           Inr result \<Rightarrow> (result, m1)
                         | Inl err \<Rightarrow> (normalizedText, m1))
                   else (normalizedText, m1)))"

subsection \<open>A world to run the methods in\<close>

text \<open>
  Nothing is stored, no key is known, the engines answer with empty results and the
  reasoning service is absent. The imported helpers are the simplest ones of their types:
  \<open>normalizeBaseUrl\<close> strips one trailing slash, \<open>isSecureEndpoint\<close> asks for
  \<open>https://\<close>, \<open>buildApiUrl\<close> concatenates.
\<close>

definition blank_world :: world where
  "blank_world =
     \<lparr> localStorage = Map.empty, dateNow = 1000,
       getOpenAIKey = Inr None, getGroqKey = Inr None, getCustomTranscriptionKey = Inr None,
       transcribeLocalWhisper =
         (\<lambda>model. Inr \<lparr> r_success = None, r_text = None, r_message = None, r_error = None \<rparr>),
       transcribeLocalParakeet =
         (\<lambda>model. Inr \<lparr> r_success = None, r_text = None, r_message = None, r_error = None \<rparr>),
       reasoningIsAvailable = Inr False,
       reasoningProcessText = (\<lambda>text model agentName. Inr text),
       cloudExchange = (\<lambda>endpoint apiKey. Inr None),
       TRANSCRIPTION_BASE = ''https://api.openai.com/v1'',
       GROQ_BASE = ''https://api.groq.com/openai/v1'',
       TRANSCRIPTION = ''https://api.openai.com/v1/audio/transcriptions'',
       normalizeBaseUrl = (\<lambda>s. Inr (Some (if endsWith s ''/'' then butlast s else s))),
       buildApiUrl = (\<lambda>base path. Inr (base @ path)),
       isSecureEndpoint = (\<lambda>s. Inr (startsWith s ''https://'')) \<rparr>"

subsection \<open>The WAV encoder\<close>

text \<open>
  A sample of the rendered channel is a 32-bit float: a rational number, an infinity or
  NaN. The products \<open>sample * 0x8000\<close> and \<open>sample * 0x7fff\<close> of a 24-bit significand
  with a 15-bit integer are exact in double precision, so rational arithmetic computes
  what the code computes.
\<close>

datatype float32 = F32 rat | F32_PosInf | F32_NegInf | F32_NaN

record audio_buffer =
  sampleRate :: nat
  channelData :: "float32 list"

text \<open>\<open>Math.max(-1, Math.min(1, x))\<close>; \<open>None\<close> is NaN.\<close>

definition clampSample :: "float32 \<Rightarrow> rat option" where
  "clampSample x =
     (case x of
        F32 r \<Rightarrow> Some (max (- 1) (min 1 r))
      | F32_PosInf \<Rightarrow> Some 1
      | F32_NegInf \<Rightarrow> Some (- 1)
      | F32_NaN \<Rightarrow> None)"

text \<open>\<open>sample < 0 ? sample * 0x8000 : sample * 0x7fff\<close>; a comparison with NaN is false.\<close>

definition scaleSample :: "rat option \<Rightarrow> rat option" where
  "scaleSample s =
     (case s of
        None \<Rightarrow> None
      | Some sample \<Rightarrow> Some (if sample < 0 then sample * 32768 else sample * 32767))"

text \<open>
  The conversion \<open>setInt16\<close> applies to its argument: NaN gives 0, any other number is
  truncated towards zero and taken modulo \<open>2^16\<close>.
\<close>

definition toInt16 :: "rat option \<Rightarrow> 16 word" where
  "toInt16 v =
     (case v of
        None \<Rightarrow> 0
      | Some r \<Rightarrow> of_int (if r < 0 then - \<lfloor>- r\<rfloor> else \<lfloor>r\<rfloor>))"

text \<open>
  The \<open>DataView\<close> over the \<open>ArrayBuffer\<close> is a list of bytes; a write outside of it throws
  a \<open>RangeError\<close> (\<open>None\<close>). All multi-byte writes of the encoder are little-endian.
\<close>

definition setUint8 :: "8 word list \<Rightarrow> nat \<Rightarrow> 8 word \<Rightarrow> 8 word list option" where
  "setUint8 view byteOffset v =
     (if byteOffset + 1 \<le> length view then Some (view[byteOffset := v]) else None)"

definition setUint16 :: "8 word list \<Rightarrow> nat \<Rightarrow> 16 word \<Rightarrow> 8 word list option" where
  "setUint16 view byteOffset v =
     (if byteOffset + 2 \<le> length view
      then Some (view[byteOffset := ucast v, byteOffset + 1 := ucast (drop_bit 8 v)])
      else None)"

definition setInt16 :: "8 word list \<Rightarrow> nat \<Rightarrow> 16 word \<Rightarrow> 8 word list option" where
  "setInt16 view byteOffset v = setUint16 view byteOffset v"

definition setUint32 :: "8 word list \<Rightarrow> nat \<Rightarrow> 32 word \<Rightarrow> 8 word list option" where
  "setUint32 view byteOffset v =
     (if byteOffset + 4 \<le> length view
      then Some (view[byteOffset := ucast v, byteOffset + 1 := ucast (drop_bit 8 v),
                      byteOffset + 2 := ucast (drop_bit 16 v),
                      byteOffset + 3 := ucast (drop_bit 24 v)])
      else None)"

fun writeString :: "8 word list \<Rightarrow> nat \<Rightarrow> string \<Rightarrow> 8 word list option" where
  "writeString view offset [] = Some view"
| "writeString view offset (c # cs) =
     (case setUint8 view offset (of_nat (of_char c)) of
        None \<Rightarrow> None
      | Some view' \<Rightarrow> writeString view' (offset + 1) cs)"

text \<open>The loop over the samples, from \<open>offset\<close> on.\<close>

fun writeSamples :: "8 word list \<Rightarrow> nat \<Rightarrow> float32 list \<Rightarrow> 8 word list option" where
  "writeSamples view offset [] = Some view"
| "writeSamples view offset (x # xs) =
     (case setInt16 view offset (toInt16 (scaleSample (clampSample x))) of
        None \<Rightarrow> None
      | Some view' \<Rightarrow> writeSamples view' (offset + 2) xs)"

text \<open>
  \<open>audioBufferToWav\<close>. The numbers handed to \<open>setUint32\<close> are stored modulo \<open>2^32\<close>, which
  is what \<open>of_nat\<close> into \<open>32 word\<close> does.
\<close>

definition audioBufferToWav :: "audio_buffer \<Rightarrow> 8 word list option" where
  "audioBufferToWav buffer =
     (let len = length (channelData buffer);
          view = replicate (44 + len * 2) 0
      in do {
        view \<leftarrow> writeString view 0 ''RIFF'';
        view \<leftarrow> setUint32 view 4 (of_nat (36 + len * 2));
        view \<leftarrow> writeString view 8 ''WAVE'';
        view \<leftarrow> writeString view 12 ''fmt '';
        view \<leftarrow> setUint32 view 16 16;
        view \<leftarrow> setUint16 view 20 1;
        view \<leftarrow> setUint16 view 22 1;
        view \<leftarrow> setUint32 view 24 (of_nat (sampleRate buffer));
        view \<leftarrow> setUint32 view 28 (of_nat (sampleRate buffer * 2));
        view \<leftarrow> setUint16 view 32 2;
        view \<leftarrow> setUint16 view 34 16;
        view \<leftarrow> writeString view 36 ''data'';
        view \<leftarrow> setUint32 view 40 (of_nat (len * 2));
        writeSamples view 44 (channelData buffer)
      })"

text \<open>
  Reading a WAV file back. The little-endian reads of a \<open>DataView\<close>, the text of a chunk
  marker, and the number of samples a reader of the 44-byte header finds: the size of the
  data chunk over the block alignment.
\<close>

definition getUint16 :: "8 word list \<Rightarrow> nat \<Rightarrow> nat" where
  "getUint16 bytes off = unat (bytes ! off) + 256 * unat (bytes ! (off + 1))"

definition getUint32 :: "8 word list \<Rightarrow> nat \<Rightarrow> nat" where
  "getUint32 bytes off =
     unat (bytes ! off) + 256 * unat (bytes ! (off + 1))
     + 65536 * unat (bytes ! (off + 2)) + 16777216 * unat (bytes ! (off + 3))"

definition marker_at :: "8 word list \<Rightarrow> nat \<Rightarrow> string \<Rightarrow> bool" where
  "marker_at bytes off s = (take (length s) (drop off bytes) = map (\<lambda>c. of_nat (of_char c)) s)"

definition wav_sample_count :: "8 word list \<Rightarrow> nat" where
  "wav_sample_count bytes = getUint32 bytes 40 div getUint16 bytes 32"

text \<open>
  Little-endian bytes, and the 44 bytes of the header for a sample count and a sample
  rate, field by field.
\<close>

definition le32 :: "32 word \<Rightarrow> 8 word list" where
  "le32 v = [ucast v, ucast (drop_bit 8 v), ucast (drop_bit 16 v), ucast (drop_bit 24 v)]"

definition le16 :: "16 word \<Rightarrow> 8 word list" where
  "le16 v = [ucast v, ucast (drop_bit 8 v)]"

text \<open>The two bytes of a sample in the payload.\<close>

definition sample_bytes :: "float32 \<Rightarrow> 8 word list" where
  "sample_bytes x = le16 (toInt16 (scaleSample (clampSample x)))"

definition wav_header :: "nat \<Rightarrow> nat \<Rightarrow> 8 word list" where
  "wav_header len rate =
     [82, 73, 70, 70] @ le32 (of_nat (36 + len * 2)) @ [87, 65, 86, 69]
     @ [102, 109, 116, 32] @ le32 16 @ le16 1 @ le16 1
     @ le32 (of_nat rate) @ le32 (of_nat (rate * 2)) @ le16 2 @ le16 16
     @ [100, 97, 116, 97] @ le32 (of_nat (len * 2))"

subsection \<open>The streaming response reader\<close>

text \<open>
  A JSON value, as \<open>JSON.parse\<close> returns it. \<open>JSON.parse\<close> itself is a parameter
  \<open>parse\<close> of the reader: \<open>None\<close> is its \<open>SyntaxError\<close>.
\<close>

datatype jsv = JNull | JBool bool | JNum rat | JStr string | JArr "jsv list"
  | JObj "(string \<times> jsv) list"

text \<open>\<open>payload.k\<close>: a property of an object; arrays and other values have none of the
  properties the reader asks for.\<close>

fun field :: "jsv \<Rightarrow> string \<Rightarrow> jsv option" where
  "field (JObj kvs) k = map_of kvs k"
| "field v k = None"

text \<open>\<open>!payload || typeof payload !== "object"\<close> is false for objects and arrays only.\<close>

fun is_object :: "jsv \<Rightarrow> bool" where
  "is_object (JObj kvs) = True"
| "is_object (JArr vs) = True"
| "is_object v = False"

text \<open>
  The variables of \<open>readTranscriptionStream\<close> that outlive a read. (\<open>eventCount\<close> and
  \<open>eventTypes\<close> are only logged.) \<open>str_field p k\<close> is \<open>p.k\<close> when
  \<open>typeof p.k === "string"\<close>.
\<close>

record stream_state =
  rs_buffer :: string
  rs_collectedText :: string
  rs_finalText :: "string option"

definition str_field :: "jsv \<Rightarrow> string \<Rightarrow> string option" where
  "str_field p k = (case field p k of Some (JStr s) \<Rightarrow> Some s | _ \<Rightarrow> None)"

definition handleEvent :: "jsv \<Rightarrow> stream_state \<Rightarrow> stream_state" where
  "handleEvent payload st =
     (if \<not> is_object payload then st
      else if field payload ''type'' = Some (JStr ''transcript.text.delta'')
              \<and> str_field payload ''delta'' \<noteq> None
        then st\<lparr>rs_collectedText := rs_collectedText st @ item_or (str_field payload ''delta'') []\<rparr>
      else if field payload ''type'' = Some (JStr ''transcript.text.segment'')
              \<and> str_field payload ''text'' \<noteq> None
        then st\<lparr>rs_collectedText := rs_collectedText st @ item_or (str_field payload ''text'') []\<rparr>
      else if field payload ''type'' = Some (JStr ''transcript.text.done'')
              \<and> str_field payload ''text'' \<noteq> None
        then st\<lparr>rs_finalText := str_field payload ''text''\<rparr>
      else st)"

text \<open>\<open>finalText ?? collectedText\<close>.\<close>

definition streamResult :: "stream_state \<Rightarrow> string" where
  "streamResult st = (case rs_finalText st of Some f \<Rightarrow> f | None \<Rightarrow> rs_collectedText st)"

text \<open>\<open>s.split("\n")\<close>.\<close>

fun split_lines :: "string \<Rightarrow> string list" where
  "split_lines [] = [[]]"
| "split_lines (c # cs) =
     (if c = CHR 0x0A then [] # split_lines cs
      else (case split_lines cs of
              l # ls \<Rightarrow> (c # l) # ls
            | [] \<Rightarrow> [[c]]))"

text \<open>The body of the loop over the lines, after the prefix is stripped: the done-marker,
  or a payload that parses, or a line put back into the buffer.\<close>

definition handleData :: "(string \<Rightarrow> jsv option) \<Rightarrow> stream_state \<Rightarrow> string \<Rightarrow> string \<Rightarrow> stream_state" where
  "handleData parse st line data =
     (if data = ''[DONE]''
      then st\<lparr>rs_finalText := Some (streamResult st)\<rparr>
      else (case parse data of
              Some parsed \<Rightarrow> handleEvent parsed st
            | None \<Rightarrow> st\<lparr>rs_buffer := rs_buffer st @ line @ [CHR 0x0A]\<rparr>))"

definition processLine :: "(string \<Rightarrow> jsv option) \<Rightarrow> stream_state \<Rightarrow> string \<Rightarrow> stream_state" where
  "processLine parse st line =
     (let trimmedLine = trim line in
      if trimmedLine = [] then st
      else if startsWith trimmedLine ''data: '' then handleData parse st line (slice 6 trimmedLine)
      else if startsWith trimmedLine ''data:''
        then handleData parse st line (trim (slice 5 trimmedLine))
      else st\<lparr>rs_buffer := rs_buffer st @ line @ [CHR 0x0A]\<rparr>)"

text \<open>One turn of the \<open>while\<close> loop: a chunk was read (and decoded to text).\<close>

definition readChunk :: "(string \<Rightarrow> jsv option) \<Rightarrow> stream_state \<Rightarrow> string \<Rightarrow> stream_state" where
  "readChunk parse st chunk =
     foldl (processLine parse) (st\<lparr>rs_buffer := []\<rparr>) (split_lines (rs_buffer st @ chunk))"

text \<open>
  \<open>readTranscriptionStream\<close>. The response body is the list of the chunks its reader
  delivers before it reports \<open>done\<close> (the loop ends only then), or \<open>None\<close> when the response
  has no body.
\<close>

definition readTranscriptionStream ::
    "(string \<Rightarrow> jsv option) \<Rightarrow> string list option \<Rightarrow> string + string" where
  "readTranscriptionStream parse body =
     (case body of
        None \<Rightarrow> Inl ''Streaming response body not available''
      | Some chunks \<Rightarrow>
          Inr (streamResult
                 (foldl (readChunk parse)
                    \<lparr> rs_buffer = [], rs_collectedText = [], rs_finalText = None \<rparr> chunks)))"

text \<open>
  The records of the stream, to state what the reader computes. A record on the wire is
  the line \<open>data: \<close> followed by its payload text and an empty line; \<open>on_wire parse d ev\<close>
  says that the payload text \<open>d\<close> is one line without trailing blank and that \<open>parse\<close>
  reads it as the event \<open>ev\<close>.
\<close>

datatype sse_event = Delta string | Segment string | Done string | DoneMarker

fun carries :: "jsv \<Rightarrow> sse_event \<Rightarrow> bool" where
  "carries p (Delta t) =
     (is_object p \<and> field p ''type'' = Some (JStr ''transcript.text.delta'')
      \<and> field p ''delta'' = Some (JStr t))"
| "carries p (Segment t) =
     (is_object p \<and> field p ''type'' = Some (JStr ''transcript.text.segment'')
      \<and> field p ''text'' = Some (JStr t))"
| "carries p (Done t) =
     (is_object p \<and> field p ''type'' = Some (JStr ''transcript.text.done'')
      \<and> field p ''text'' = Some (JStr t))"
| "carries p DoneMarker = False"

definition on_wire :: "(string \<Rightarrow> jsv option) \<Rightarrow> string \<Rightarrow> sse_event \<Rightarrow> bool" where
  "on_wire parse d ev =
     (d \<noteq> [] \<and> CHR 0x0A \<notin> set d \<and> \<not> is_ws (last d)
      \<and> (if ev = DoneMarker then d = ''[DONE]''
          else d \<noteq> ''[DONE]'' \<and> (case parse d of Some p \<Rightarrow> carries p ev | None \<Rightarrow> False)))"

definition data_line :: "string \<Rightarrow> string" where
  "data_line d = ''data: '' @ d"

definition frame :: "string \<Rightarrow> string" where
  "frame d = data_line d @ [CHR 0x0A, CHR 0x0A]"

definition frames :: "(string \<times> sse_event) list \<Rightarrow> string" where
  "frames recs = concat (map (\<lambda>r. frame (fst r)) recs)"

text \<open>
  The result the specification describes for a sequence of events: the text of the done
  payload when there is one (the last, if several), else the fragments accumulated when
  the done-marker arrived, else all fragments.
\<close>

fun fragment :: "sse_event \<Rightarrow> string" where
  "fragment (Delta t) = t"
| "fragment (Segment t) = t"
| "fragment ev = []"

fun done_text :: "sse_event \<Rightarrow> string option" where
  "done_text (Done t) = Some t"
| "done_text ev = None"

definition expected_text :: "sse_event list \<Rightarrow> string" where
  "expected_text evs =
     (case List.map_filter done_text evs of
        [] \<Rightarrow> concat (map fragment (takeWhile (\<lambda>ev. ev \<noteq> DoneMarker) evs))
      | ds \<Rightarrow> last ds)"

text \<open>What the reader's state becomes on an event.\<close>

fun applyEvent :: "stream_state \<Rightarrow> sse_event \<Rightarrow> stream_state" where
  "applyEvent st (Delta t) = st\<lparr>rs_collectedText := rs_collectedText st @ t\<rparr>"
| "applyEvent st (Segment t) = st\<lparr>rs_collectedText := rs_collectedText st @ t\<rparr>"
| "applyEvent st (Done t) = st\<lparr>rs_finalText := Some t\<rparr>"
| "applyEvent st DoneMarker = st\<lparr>rs_finalText := Some (streamResult st)\<rparr>"

text \<open>
  \<open>JSON.parse\<close> on the payload texts of the examples below: three payloads and a payload
  cut after \<open>"del\<close>, which like every proper prefix of a JSON object is a syntax error.
  Other texts do not occur.
\<close>

definition parse_examples :: "string \<Rightarrow> jsv option" where
  "parse_examples s =
     (if s = ''{\"type\":\"transcript.text.delta\",\"delta\":\"He\"}''
        then Some (JObj [(''type'', JStr ''transcript.text.delta''), (''delta'', JStr ''He'')])
      else if s = ''{\"type\":\"transcript.text.delta\",\"delta\":\"llo\"}''
        then Some (JObj [(''type'', JStr ''transcript.text.delta''), (''delta'', JStr ''llo'')])
      else if s = ''{\"type\":\"transcript.text.done\",\"text\":\"Hi\"}''
        then Some (JObj [(''type'', JStr ''transcript.text.done''), (''text'', JStr ''Hi'')])
      else None)"

subsection \<open>The transcription dispatcher\<close>

text \<open>
  A successful result \<open>{success: true, text, source}\<close> (the timings are measurements and
  are left out). What the manager does to the outside is a list of signals, in order: its
  callbacks, the release of the media tracks, and the calls of the three backends.
\<close>

record transcription =
  t_text :: string
  t_source :: string

datatype engine = LocalWhisper | LocalParakeet | CloudAPI

datatype signal =
    StateChange bool bool
  | NoAudioDetected
  | ErrorRaised string string
  | TranscriptionComplete transcription
  | TracksStopped
  | EngineCalled engine

text \<open>
  The \<open>try\<close> block of \<open>processWithOpenAIAPI\<close>: the key, the endpoint, the exchange with
  the server, the check of \<open>result.text\<close>, then reasoning. (The optimisation of the audio
  never fails and changes only what is uploaded.)
\<close>

definition cloudTry :: "world \<Rightarrow> manager \<Rightarrow> (string + transcription) \<times> manager" where
  "cloudTry w m =
     (case getAPIKey w m of
        (Inl err, m1) \<Rightarrow> (Inl err, m1)
      | (Inr apiKey, m1) \<Rightarrow>
          (case getTranscriptionEndpoint w m1 of
             (endpoint, m2) \<Rightarrow>
               (case cloudExchange w endpoint apiKey of
                  Inl err \<Rightarrow> (Inl err, m2)
                | Inr resultText \<Rightarrow>
                    if truthy resultText \<and> trim (item_or resultText []) \<noteq> []
                    then (case processTranscription w m2 (item_or resultText []) ''openai'' of
                            (text, m3) \<Rightarrow>
                              (case isReasoningAvailable w m3 of
                                 (available, m4) \<Rightarrow>
                                   (Inr \<lparr> t_text = text,
                                          t_source = (if available then ''openai-reasoned''
                                                      else ''openai'') \<rparr>, m4)))
                    else (Inl ''No text transcribed - audio may be too short, silent, or in an unsupported format'',
                          m2))))"

text \<open>
  \<open>processWithOpenAIAPI\<close> with its \<open>catch\<close>: the local fallback. Inside the inner \<open>try\<close>
  an unusable answer of the engine ends in \<open>throw error\<close>, which throws the error of the
  cloud attempt to the inner \<open>catch\<close>.
\<close>

definition processWithOpenAIAPI ::
    "world \<Rightarrow> manager \<Rightarrow> (string + transcription) \<times> manager \<times> signal list" where
  "processWithOpenAIAPI w m =
     (let allowLocalFallback = (localStorage w ''allowLocalFallback'' = Some ''true'');
          fallbackModel = item_or (localStorage w ''fallbackWhisperModel'') ''base''
      in case cloudTry w m of
           (Inr result, m1) \<Rightarrow> (Inr result, m1, [EngineCalled CloudAPI])
         | (Inl error, m1) \<Rightarrow>
             (let isOpenAIMode = (localStorage w ''useLocalWhisper'' \<noteq> Some ''true'');
                  failed = (\<lambda>fallbackError.
                    Inl (''OpenAI API failed: '' @ error @ ''. Local fallback also failed: ''
                         @ fallbackError))
              in if allowLocalFallback \<and> isOpenAIMode
                 then (case transcribeLocalWhisper w fallbackModel of
                         Inl fallbackError \<Rightarrow>
                           (failed fallbackError, m1, [EngineCalled CloudAPI, EngineCalled LocalWhisper])
                       | Inr result \<Rightarrow>
                           if r_success result = Some True \<and> truthy (r_text result)
                           then (case processTranscription w m1 (item_or (r_text result) [])
                                        ''local-fallback'' of
                                   (text, m2) \<Rightarrow>
                                     if text \<noteq> []
                                     then (Inr \<lparr> t_text = text, t_source = ''local-fallback'' \<rparr>, m2,
                                           [EngineCalled CloudAPI, EngineCalled LocalWhisper])
                                     else (failed error, m2,
                                           [EngineCalled CloudAPI, EngineCalled LocalWhisper]))
                           else (failed error, m1,
                                 [EngineCalled CloudAPI, EngineCalled LocalWhisper]))
                 else (Inl error, m1, [EngineCalled CloudAPI])))"

text \<open>
  \<open>processWithLocalWhisper\<close> and \<open>processWithLocalParakeet\<close> are the same text up to the
  engine they call, the source tag and two messages. \<open>localTry\<close> is their \<open>try\<close> block,
  \<open>localCatch\<close> the method with its \<open>catch\<close>. The text \<open>processTranscription\<close> returns
  is never \<open>null\<close>, so the branch \<open>No text transcribed\<close> is not taken.
\<close>

definition localTry ::
    "world \<Rightarrow> manager \<Rightarrow> string + local_result \<Rightarrow> string \<Rightarrow> string
     \<Rightarrow> (string + transcription) \<times> manager" where
  "localTry w m answer source defaultMessage =
     (case answer of
        Inl err \<Rightarrow> (Inl err, m)
      | Inr result \<Rightarrow>
          if r_success result = Some True \<and> truthy (r_text result)
          then (case processTranscription w m (item_or (r_text result) []) source of
                  (text, m1) \<Rightarrow>
                    (Inr \<lparr> t_text = (if text \<noteq> [] then text else item_or (r_text result) []),
                           t_source = source \<rparr>, m1))
          else if r_success result = Some False \<and> r_message result = Some ''No audio detected''
          then (Inl ''No audio detected'', m)
          else (Inl (item_or (r_message result) (item_or (r_error result) defaultMessage)), m))"

definition localCatch ::
    "world \<Rightarrow> manager \<Rightarrow> engine \<Rightarrow> string + local_result \<Rightarrow> string \<Rightarrow> string \<Rightarrow> string
     \<Rightarrow> (string + transcription) \<times> manager \<times> signal list" where
  "localCatch w m engine answer source defaultMessage name =
     (case localTry w m answer source defaultMessage of
        (Inr result, m1) \<Rightarrow> (Inr result, m1, [EngineCalled engine])
      | (Inl error, m1) \<Rightarrow>
          if error = ''No audio detected'' then (Inl error, m1, [EngineCalled engine])
          else (let allowOpenAIFallback = (localStorage w ''allowOpenAIFallback'' = Some ''true'');
                    isLocalMode = (localStorage w ''useLocalWhisper'' = Some ''true'')
                in if allowOpenAIFallback \<and> isLocalMode
                   then (case processWithOpenAIAPI w m1 of
                           (Inr fallbackResult, m2, sigs) \<Rightarrow>
                             (Inr (fallbackResult\<lparr>t_source := ''openai-fallback''\<rparr>), m2,
                              EngineCalled engine # sigs)
                         | (Inl fallbackError, m2, sigs) \<Rightarrow>
                             (Inl (name @ '' failed: '' @ error
                                   @ ''. OpenAI fallback also failed: '' @ fallbackError), m2,
                              EngineCalled engine # sigs))
                   else (Inl (name @ '' failed: '' @ error), m1, [EngineCalled engine])))"

definition processWithLocalWhisper ::
    "world \<Rightarrow> manager \<Rightarrow> string \<Rightarrow> (string + transcription) \<times> manager \<times> signal list" where
  "processWithLocalWhisper w m model =
     localCatch w m LocalWhisper (transcribeLocalWhisper w model) ''local''
       ''Local Whisper transcription failed'' ''Local Whisper''"

definition processWithLocalParakeet ::
    "world \<Rightarrow> manager \<Rightarrow> string \<Rightarrow> (string + transcription) \<times> manager \<times> signal list" where
  "processWithLocalParakeet w m model =
     localCatch w m LocalParakeet (transcribeLocalParakeet w model) ''local-parakeet''
       ''Parakeet transcription failed'' ''Parakeet''"

text \<open>\<open>processAudio\<close>: the choice of the backend, the two callbacks, and the \<open>finally\<close>.\<close>

definition dispatch ::
    "world \<Rightarrow> manager \<Rightarrow> (string + transcription) \<times> manager \<times> signal list" where
  "dispatch w m =
     (let useLocalWhisper = (localStorage w ''useLocalWhisper'' = Some ''true'');
          localProvider = item_or (localStorage w ''localTranscriptionProvider'') ''whisper'';
          whisperModel = item_or (localStorage w ''whisperModel'') ''base'';
          parakeetModel = item_or (localStorage w ''parakeetModel'') ''parakeet-tdt-0.6b-v3''
      in if useLocalWhisper
         then (if localProvider = ''nvidia'' then processWithLocalParakeet w m parakeetModel
               else processWithLocalWhisper w m whisperModel)
         else processWithOpenAIAPI w m)"

definition processAudio :: "world \<Rightarrow> manager \<Rightarrow> manager \<times> signal list" where
  "processAudio w m =
     (case dispatch w m of
        (Inr result, m1, sigs) \<Rightarrow>
          (m1\<lparr>isProcessing := False\<rparr>,
           sigs @ [TranscriptionComplete result, StateChange False False])
      | (Inl error, m1, sigs) \<Rightarrow>
          (m1\<lparr>isProcessing := False\<rparr>,
           sigs
           @ (if error \<noteq> ''No audio detected''
              then [ErrorRaised ''Transcription Error'' (''Transcription failed: '' @ error)]
              else [])
           @ [StateChange False False]))"

subsection \<open>The recording session controller\<close>

text \<open>
  What \<open>getUserMedia\<close> answers: a stream (and whether the audio graph of the detector can
  be built on it), or an error with its name and message.
\<close>

datatype acquisition = Stream bool | Refused string string

definition startRecording :: "world \<Rightarrow> acquisition \<Rightarrow> manager \<Rightarrow> bool \<times> manager \<times> signal list" where
  "startRecording w acq m =
     (if isRecording m \<or> isProcessing m \<or> mediaRecorderRecording m then (False, m, [])
      else (case acq of
              Stream graph_ok \<Rightarrow>
                (True,
                 (startVADMonitoring graph_ok (m\<lparr>recordingStartTime := Some (dateNow w)\<rparr>))
                   \<lparr>mediaRecorderRecording := True, isRecording := True\<rparr>,
                 [StateChange True False])
            | Refused name message \<Rightarrow>
                (False, m,
                 [if name = ''NotAllowedError'' \<or> name = ''PermissionDeniedError''
                  then ErrorRaised ''Microphone Access Denied''
                         ''Please grant microphone permission in your system settings and try again.''
                  else if name = ''NotFoundError'' \<or> name = ''DevicesNotFoundError''
                  then ErrorRaised ''No Microphone Found''
                         ''No microphone was detected. Please connect a microphone and try again.''
                  else if name = ''NotReadableError'' \<or> name = ''TrackStartError''
                  then ErrorRaised ''Microphone In Use''
                         ''The microphone is being used by another application. Please close other apps and try again.''
                  else ErrorRaised ''Recording Error''
                         (''Failed to access microphone: '' @ message)])))"

text \<open>
  The \<open>onstop\<close> handler that \<open>startRecording\<close> installs: it runs when the recorder has
  stopped. The gate tests \<open>vadStats.voiceDetected\<close> and \<open>vadStats.speechDuration\<close>.
\<close>

definition onstop :: "world \<Rightarrow> manager \<Rightarrow> manager \<times> signal list" where
  "onstop w m =
     (case stopVADMonitoring m of
        (vadStats, m1) \<Rightarrow>
          (let m2 = m1\<lparr>isRecording := False, recordingStartTime := None\<rparr>
           in if \<not> s_voiceDetected vadStats
                 \<or> dless (s_speechDuration vadStats) MIN_SPEECH_DURATION
              then (m2\<lparr>isProcessing := False\<rparr>,
                    [StateChange False False, NoAudioDetected, TracksStopped])
              else (case processAudio w (m2\<lparr>isProcessing := True\<rparr>) of
                      (m3, sigs) \<Rightarrow> (m3, StateChange False True # sigs @ [TracksStopped]))))"

text \<open>
  \<open>stopRecording\<close> asks the recorder to stop; the handler runs later, as an event of its
  own (ticks of the detector may come in between).
\<close>

definition stopRecording :: "manager \<Rightarrow> bool \<times> manager" where
  "stopRecording m =
     (if mediaRecorderRecording m then (True, m\<lparr>mediaRecorderRecording := False\<rparr>)
      else (False, m))"

text \<open>
  \<open>cancelRecording\<close> stops the detector, replaces the handler by one that only resets the
  state (\<open>cancel_onstop\<close>), stops the recorder and releases the tracks.
\<close>

definition cancelRecording :: "manager \<Rightarrow> bool \<times> manager \<times> signal list" where
  "cancelRecording m =
     (if mediaRecorderRecording m
      then (case stopVADMonitoring m of
              (vadStats, m1) \<Rightarrow> (True, m1\<lparr>mediaRecorderRecording := False\<rparr>, [TracksStopped]))
      else (False, m, []))"

definition cancel_onstop :: "manager \<Rightarrow> manager \<times> signal list" where
  "cancel_onstop m =
     (m\<lparr>isRecording := False, isProcessing := False, recordingStartTime := None\<rparr>,
      [StateChange False False])"

text \<open>
  The managers that the constructor, the methods and the handlers above produce, with the
  ticks of the detector in between.
\<close>

inductive reachable :: "manager \<Rightarrow> bool" where
  reachable_new: "reachable new_manager"
| reachable_start: "reachable m \<Longrightarrow> reachable (fst (snd (startRecording w acq m)))"
| reachable_tick: "reachable m \<Longrightarrow> reachable (fst (vad_tick now dataArray m))"
| reachable_stop: "reachable m \<Longrightarrow> reachable (snd (stopRecording m))"
| reachable_onstop: "reachable m \<Longrightarrow> reachable (fst (onstop w m))"
| reachable_cancel: "reachable m \<Longrightarrow> reachable (fst (snd (cancelRecording m)))"
| reachable_cancel_onstop: "reachable m \<Longrightarrow> reachable (fst (cancel_onstop m))"

text \<open>
  The fields of the detector that the gate and \<open>hasValidAudioContent\<close> read. Between the
  ticks they satisfy \<open>vad_consistent\<close>: the peak and the duration are numbers (not NaN),
  and the peak is above the threshold once a voice was detected.
\<close>

definition vad_fields :: "manager \<Rightarrow> bool \<times> double \<times> double" where
  "vad_fields m = (voiceDetected m, speechDuration m, peakAudioLevel m)"

definition vad_consistent :: "manager \<Rightarrow> bool" where
  "vad_consistent m =
     (peakAudioLevel m \<noteq> NaN \<and> speechDuration m \<noteq> NaN
      \<and> (if voiceDetected m then dless VOICE_THRESHOLD (peakAudioLevel m) else True))"

section \<open>Properties\<close>

subsection \<open>Numbers\<close>

text \<open>
  The definitions that evaluate an operation on given doubles, and the doubles of the
  decimal literals of the detector: \<open>0.04\<close>, \<open>0.5\<close>, \<open>0.7\<close>, \<open>0.3\<close> and the
  quotient \<open>50 / 1000\<close>.
\<close>

lemmas double_eval = round_double_def finite_or_inf_def ulp_exponent_def round_to_def
  round_half_even_def ilog2_def pow2_def sqrt_to_def round_root_def isqrt_step_def

lemma decimal_literals:
  "round_double (1 / 25) = Finite (5764607523034235 / 144115188075855872)"
  "round_double (1 / 2) = Finite (1 / 2)"
  "round_double (7 / 10) = Finite (3152519739159347 / 4503599627370496)"
  "round_double (3 / 10) = Finite (5404319552844595 / 18014398509481984)"
  "ddiv (Finite 50) (Finite 1000) = Finite (3602879701896397 / 72057594037927936)"
  by (simp_all add: double_eval)

lemma VAD_CONFIG_values:
  "VOICE_THRESHOLD = Finite (5764607523034235 / 144115188075855872)"
  "MIN_SPEECH_DURATION = Finite (1 / 2)"
  "ddiv ANALYSIS_INTERVAL (Finite 1000) = Finite (3602879701896397 / 72057594037927936)"
  by (simp_all add: VOICE_THRESHOLD_def MIN_SPEECH_DURATION_def ANALYSIS_INTERVAL_def
      double_eval)

text \<open>The order of the doubles: NaN is not comparable, the other values are totally ordered.\<close>

lemma dless_not_NaN: "dless a b \<Longrightarrow> a \<noteq> NaN \<and> b \<noteq> NaN"
  by (cases a; cases b) simp_all

lemma dless_trans: "dless a b \<Longrightarrow> dless b c \<Longrightarrow> dless a c"
  by (cases a; cases b; cases c) simp_all

lemma not_dless_iff_dle: "a \<noteq> NaN \<Longrightarrow> b \<noteq> NaN \<Longrightarrow> (\<not> dless a b) = dle b a"
  by (cases a; cases b) auto

lemma dless_dle_trans: "dless a b \<Longrightarrow> dle b c \<Longrightarrow> dless a c"
  by (cases a; cases b; cases c) simp_all

text \<open>Rounding gives a number, and so does adding a finite double to a number.\<close>

lemma finite_or_inf_not_NaN: "finite_or_inf v \<noteq> NaN"
  by (simp add: finite_or_inf_def)

lemma round_double_not_NaN: "round_double q \<noteq> NaN"
  by (simp add: round_double_def finite_or_inf_not_NaN)

lemma dadd_Finite_not_NaN: "a \<noteq> NaN \<Longrightarrow> dadd a (Finite c) \<noteq> NaN"
  by (cases a) (simp_all add: round_double_not_NaN)

text \<open>
  The level of three frames: all bins full, all bins empty, and a frame whose root mean
  square is \<open>2/15\<close> in exact arithmetic.
\<close>

lemma rms_level_examples:
  "rms_level [255, 255] = Finite 1"
  "rms_level [0, 0] = Finite 0"
  "rms_level [46, 46, 46, 46, 14, 14, 14, 14] = Finite (2401919801264265 / 18014398509481984)"
  by (simp_all add: rms_level_def normalized_def double_eval)

subsection \<open>The voice latch\<close>

lemma vad_run_Nil: "vad_run [] m = m"
  by (simp add: vad_run_def)

lemma vad_run_append: "vad_run (ts @ us) m = vad_run us (vad_run ts m)"
  by (simp add: vad_run_def)

lemma vad_run_snoc: "vad_run (ts @ [t]) m = fst (vad_tick (fst t) (snd t) (vad_run ts m))"
  by (simp add: vad_run_def)

lemma vad_tick_keeps_latch: "voiceDetected m \<Longrightarrow> voiceDetected (fst (vad_tick now d m))"
  by (simp add: vad_tick_def Let_def)

lemma vad_tick_latches:
  "dless VOICE_THRESHOLD (currentAudioLevel (fst (vad_tick now d m)))
   \<Longrightarrow> voiceDetected (fst (vad_tick now d m))"
  by (simp add: vad_tick_def Let_def split: if_splits)

lemma vad_tick_quiet:
  "\<not> dless VOICE_THRESHOLD (currentAudioLevel (fst (vad_tick now d m)))
   \<Longrightarrow> voiceDetected (fst (vad_tick now d m)) = voiceDetected m
     \<and> speechDuration (fst (vad_tick now d m)) = speechDuration m"
  by (simp add: vad_tick_def Let_def split: if_splits)

lemma vad_run_keeps_latch: "voiceDetected m \<Longrightarrow> voiceDetected (vad_run ts m)"
proof (induction ts rule: rev_induct)
  case Nil
  then show ?case by (simp add: vad_run_Nil)
next
  case (snoc t ts)
  then show ?case by (simp add: vad_run_snoc vad_tick_keeps_latch)
qed

lemma vad_run_quiet:
  assumes "\<forall>i < length ts.
             \<not> dless VOICE_THRESHOLD (currentAudioLevel (vad_run (take (Suc i) ts) m))"
  shows "voiceDetected (vad_run ts m) = voiceDetected m
         \<and> speechDuration (vad_run ts m) = speechDuration m"
  using assms
proof (induction ts rule: rev_induct)
  case Nil
  then show ?case by (simp add: vad_run_Nil)
next
  case (snoc t ts)
  have prev: "\<forall>i < length ts.
      \<not> dless VOICE_THRESHOLD (currentAudioLevel (vad_run (take (Suc i) ts) m))"
  proof (intro allI impI)
    fix i assume i: "i < length ts"
    then have eq: "take (Suc i) (ts @ [t]) = take (Suc i) ts" by simp
    from i have "i < length (ts @ [t])" by simp
    with snoc.prems
    have "\<not> dless VOICE_THRESHOLD (currentAudioLevel (vad_run (take (Suc i) (ts @ [t])) m))"
      by blast
    then show "\<not> dless VOICE_THRESHOLD (currentAudioLevel (vad_run (take (Suc i) ts) m))"
      unfolding eq .
  qed
  have "length ts < length (ts @ [t])" by simp
  with snoc.prems
  have "\<not> dless VOICE_THRESHOLD
            (currentAudioLevel (vad_run (take (Suc (length ts)) (ts @ [t])) m))"
    by blast
  then have last: "\<not> dless VOICE_THRESHOLD
                       (currentAudioLevel (fst (vad_tick (fst t) (snd t) (vad_run ts m))))"
    by (simp add: vad_run_snoc)
  from vad_tick_quiet [OF last] snoc.IH [OF prev] show ?case
    by (simp add: vad_run_snoc)
qed

text \<open>
  C9. Within one session (the ticks that follow the reset of \<open>startVADMonitoring\<close>):
  a tick after which the smoothed level is above the threshold leaves \<open>voiceDetected\<close>
  true, and it is true after every later tick; when the smoothed level is above the
  threshold after no tick, \<open>voiceDetected\<close> is false and \<open>speechDuration\<close> is 0 at the end.
\<close>

theorem voiceDetected_monotone_latch:
  "(\<forall>i j. i < j \<and> j \<le> length ticks
            \<and> dless VOICE_THRESHOLD (currentAudioLevel (session_after m0 ticks (Suc i)))
            \<longrightarrow> voiceDetected (session_after m0 ticks j))
       \<and> (\<forall>i j. i \<le> j \<and> j \<le> length ticks \<and> voiceDetected (session_after m0 ticks i)
            \<longrightarrow> voiceDetected (session_after m0 ticks j))
       \<and> ((\<forall>i < length ticks.
              \<not> dless VOICE_THRESHOLD (currentAudioLevel (session_after m0 ticks (Suc i))))
            \<longrightarrow> \<not> voiceDetected (session_after m0 ticks (length ticks))
                \<and> speechDuration (session_after m0 ticks (length ticks)) = Finite 0)"
proof (intro conjI allI impI)
  fix i j
  assume h: "i \<le> j \<and> j \<le> length ticks \<and> voiceDetected (session_after m0 ticks i)"
  then have "take i (take j ticks) = take i ticks"
    by (simp add: min_absorb1)
  then have "take j ticks = take i ticks @ drop i (take j ticks)"
    using append_take_drop_id [of i "take j ticks"] by simp
  then have "session_after m0 ticks j = vad_run (drop i (take j ticks)) (session_after m0 ticks i)"
    unfolding session_after_def using vad_run_append [of "take i ticks" "drop i (take j ticks)"] by simp
  with h show "voiceDetected (session_after m0 ticks j)"
    by (simp add: vad_run_keeps_latch)
next
  fix i j
  assume h: "i < j \<and> j \<le> length ticks
      \<and> dless VOICE_THRESHOLD (currentAudioLevel (session_after m0 ticks (Suc i)))"
  then have i: "i < length ticks" by simp
  then have "take (Suc i) ticks = take i ticks @ [ticks ! i]"
    by (simp add: take_Suc_conv_app_nth)
  then have "session_after m0 ticks (Suc i)
      = fst (vad_tick (fst (ticks ! i)) (snd (ticks ! i)) (session_after m0 ticks i))"
    unfolding session_after_def by (simp add: vad_run_snoc)
  with h have latched: "voiceDetected (session_after m0 ticks (Suc i))"
    by (simp add: vad_tick_latches)
  from h have "take (Suc i) (take j ticks) = take (Suc i) ticks"
    by (simp add: min_absorb1)
  then have "take j ticks = take (Suc i) ticks @ drop (Suc i) (take j ticks)"
    using append_take_drop_id [of "Suc i" "take j ticks"] by simp
  then have "session_after m0 ticks j = vad_run (drop (Suc i) (take j ticks)) (session_after m0 ticks (Suc i))"
    unfolding session_after_def
    using vad_run_append [of "take (Suc i) ticks" "drop (Suc i) (take j ticks)"] by simp
  with latched show "voiceDetected (session_after m0 ticks j)"
    by (simp add: vad_run_keeps_latch)
next
  assume q: "\<forall>i < length ticks.
      \<not> dless VOICE_THRESHOLD (currentAudioLevel (session_after m0 ticks (Suc i)))"
  from q have q': "\<forall>i < length ticks.
      \<not> dless VOICE_THRESHOLD
          (currentAudioLevel (vad_run (take (Suc i) ticks) (startVADMonitoring True m0)))"
    unfolding session_after_def .
  have fin: "voiceDetected (vad_run ticks (startVADMonitoring True m0))
          = voiceDetected (startVADMonitoring True m0)
      \<and> speechDuration (vad_run ticks (startVADMonitoring True m0))
          = speechDuration (startVADMonitoring True m0)"
    by (rule vad_run_quiet [OF q'])
  from fin show "\<not> voiceDetected (session_after m0 ticks (length ticks))"
    unfolding session_after_def by (simp add: startVADMonitoring_def)
  from fin show "speechDuration (session_after m0 ticks (length ticks)) = Finite 0"
    unfolding session_after_def by (simp add: startVADMonitoring_def)
qed

text \<open>
  A first frame that brings the smoothed level to the double next above \<open>0.04\<close> latches
  the flag for the session; a silent session never sets it.
\<close>

theorem voiceDetected_monotone_latch_witness:
  "currentAudioLevel
     (session_after new_manager
        [(1, [46, 46, 46, 46, 14, 14, 14, 14]), (2, [0, 0]), (3, [0, 0])] (Suc 0))
     = Finite (1441151880758559 / 36028797018963968)
   \<and> dless VOICE_THRESHOLD
       (currentAudioLevel
          (session_after new_manager
             [(1, [46, 46, 46, 46, 14, 14, 14, 14]), (2, [0, 0]), (3, [0, 0])] (Suc 0)))
   \<and> voiceDetected
       (session_after new_manager
          [(1, [46, 46, 46, 46, 14, 14, 14, 14]), (2, [0, 0]), (3, [0, 0])] 3)
   \<and> \<not> dless VOICE_THRESHOLD
         (currentAudioLevel (session_after new_manager [(1, [0, 0]), (2, [0, 0])] 1))
   \<and> \<not> dless VOICE_THRESHOLD
         (currentAudioLevel (session_after new_manager [(1, [0, 0]), (2, [0, 0])] 2))
   \<and> \<not> voiceDetected (session_after new_manager [(1, [0, 0]), (2, [0, 0])] 2)
   \<and> speechDuration (session_after new_manager [(1, [0, 0]), (2, [0, 0])] 2) = Finite 0"
proof -
  let ?loud = "[(1::nat, [46, 46, 46, 46, 14, 14, 14, 14 :: 8 word]), (2, [0, 0]), (3, [0, 0])]"
  let ?quiet = "[(1::nat, [0, 0 :: 8 word]), (2, [0, 0])]"
  note run = session_after_def vad_run_def vad_tick_def startVADMonitoring_def new_manager_def
    Let_def VAD_CONFIG_values rms_level_examples decimal_literals
  have l: "currentAudioLevel (session_after new_manager ?loud (Suc 0))
      = Finite (1441151880758559 / 36028797018963968)"
    by (simp add: run) (simp add: double_eval)
  have a: "dless VOICE_THRESHOLD (currentAudioLevel (session_after new_manager ?loud (Suc 0)))"
    unfolding l by (simp add: VAD_CONFIG_values)
  have b: "\<forall>i < length ?quiet.
      \<not> dless VOICE_THRESHOLD (currentAudioLevel (session_after new_manager ?quiet (Suc i)))"
    by (simp add: run less_Suc_eq) (simp add: double_eval)
  have c: "(0::nat) < 3 \<and> 3 \<le> length ?loud
      \<and> dless VOICE_THRESHOLD (currentAudioLevel (session_after new_manager ?loud (Suc 0)))"
    using a by simp
  have d: "voiceDetected (session_after new_manager ?loud 3)"
    using voiceDetected_monotone_latch [of ?loud new_manager, THEN conjunct1, rule_format, OF c] .
  have l2: "length ?quiet = 2" by simp
  have e: "\<not> voiceDetected (session_after new_manager ?quiet 2)
      \<and> speechDuration (session_after new_manager ?quiet 2) = Finite 0"
    using voiceDetected_monotone_latch
      [of ?quiet new_manager, THEN conjunct2, THEN conjunct2, THEN mp, OF b]
    unfolding l2 .
  from b have b1: "\<not> dless VOICE_THRESHOLD
                      (currentAudioLevel (session_after new_manager ?quiet 1))"
    and b2: "\<not> dless VOICE_THRESHOLD
                 (currentAudioLevel (session_after new_manager ?quiet 2))"
    by (simp_all add: less_Suc_eq numeral_2_eq_2)
  from l a d b1 b2 e show ?thesis by blast
qed


subsection \<open>The API key cache\<close>

lemma getAPIKey_Some_cached:
  assumes "getAPIKey w m = (Inr (Some k), m1)"
  shows "cachedApiKey m1 = Some k \<and> cachedApiKeyProvider m1 = Some (cloudProvider w)"
  using assms
  by (auto simp: getAPIKey_def Let_def split: if_splits sum.splits)

text \<open>
  C10, as the code has it. The cache is keyed on the provider and holds keys, not \<open>null\<close>:

  \<^item> when a call of \<open>getAPIKey\<close> returned a key, the next call under the same stored
    provider returns that key and leaves the manager as it is, whatever the credential
    stores hold by then: they are not consulted;
  \<^item> a cached key is replaced only by a call whose provider differs from the cached
    provider;
  \<^item> a call whose provider differs from the cached provider does not serve the cached
    key: it returns what the stores give for its provider, and a result (not an error) is
    cached under that provider;
  \<^item> a call that returned \<open>null\<close> leaves no key in the cache, and the call after it
    returns what the stores give, whatever the provider.
\<close>

theorem getAPIKey_cache_keyed_on_provider:
  "(getAPIKey w1 m = (Inr (Some k), m1) \<and> cloudProvider w2 = cloudProvider w1
      \<longrightarrow> getAPIKey w2 m1 = (Inr (Some k), m1))
   \<and> (cachedApiKey m = Some k \<and> cachedApiKey (snd (getAPIKey w m)) \<noteq> Some k
      \<longrightarrow> cachedApiKeyProvider m \<noteq> Some (cloudProvider w))
   \<and> (cachedApiKeyProvider m \<noteq> Some (cloudProvider w)
      \<longrightarrow> fst (getAPIKey w m) = retrieveApiKey w (cloudProvider w)
          \<and> (\<forall>k'. retrieveApiKey w (cloudProvider w) = Inr k'
                \<longrightarrow> cachedApiKey (snd (getAPIKey w m)) = k'
                    \<and> cachedApiKeyProvider (snd (getAPIKey w m)) = Some (cloudProvider w)))
   \<and> (getAPIKey w1 m = (Inr None, m1)
      \<longrightarrow> cachedApiKey m1 = None
          \<and> fst (getAPIKey w2 m1) = retrieveApiKey w2 (cloudProvider w2))"
proof (intro conjI impI allI)
  assume h: "getAPIKey w1 m = (Inr (Some k), m1) \<and> cloudProvider w2 = cloudProvider w1"
  then have "cachedApiKey m1 = Some k \<and> cachedApiKeyProvider m1 = Some (cloudProvider w1)"
    using getAPIKey_Some_cached [of w1 m k m1] by blast
  with h show "getAPIKey w2 m1 = (Inr (Some k), m1)"
    by (simp add: getAPIKey_def)
next
  assume h: "cachedApiKey m = Some k \<and> cachedApiKey (snd (getAPIKey w m)) \<noteq> Some k"
  show "cachedApiKeyProvider m \<noteq> Some (cloudProvider w)"
  proof
    assume "cachedApiKeyProvider m = Some (cloudProvider w)"
    with h have "getAPIKey w m = (Inr (Some k), m)"
      by (simp add: getAPIKey_def)
    with h show False by simp
  qed
next
  assume h: "cachedApiKeyProvider m \<noteq> Some (cloudProvider w)"
  then show "fst (getAPIKey w m) = retrieveApiKey w (cloudProvider w)"
    by (simp add: getAPIKey_def Let_def split: sum.splits)
next
  fix k'
  assume h: "cachedApiKeyProvider m \<noteq> Some (cloudProvider w)"
    and r: "retrieveApiKey w (cloudProvider w) = Inr k'"
  then show "cachedApiKey (snd (getAPIKey w m)) = k'"
    by (simp add: getAPIKey_def Let_def)
  from h r show "cachedApiKeyProvider (snd (getAPIKey w m)) = Some (cloudProvider w)"
    by (simp add: getAPIKey_def Let_def)
next
  assume h: "getAPIKey w1 m = (Inr None, m1)"
  then show c: "cachedApiKey m1 = None"
    by (auto simp: getAPIKey_def Let_def split: if_splits sum.splits)
  then show "fst (getAPIKey w2 m1) = retrieveApiKey w2 (cloudProvider w2)"
    by (simp add: getAPIKey_def Let_def split: sum.splits)
qed

text \<open>
  A key read for \<open>openai\<close> survives a change of the stored key; when the provider becomes
  \<open>groq\<close> the call returns the groq key of the stores and caches it; and after a \<open>null\<close>
  for \<open>custom\<close> the next call returns the key stored in between.
\<close>

theorem getAPIKey_cache_keyed_on_provider_witness:
  "fst (getAPIKey (blank_world\<lparr>getOpenAIKey := Inr (Some ''sk-first'')\<rparr>) new_manager)
      = Inr (Some ''sk-first'')
   \<and> fst (getAPIKey (blank_world\<lparr>getOpenAIKey := Inr (Some ''sk-second'')\<rparr>)
          (snd (getAPIKey (blank_world\<lparr>getOpenAIKey := Inr (Some ''sk-first'')\<rparr>) new_manager)))
      = Inr (Some ''sk-first'')
   \<and> fst (getAPIKey
          (blank_world\<lparr>localStorage := [''cloudTranscriptionProvider'' \<mapsto> ''groq''],
                        getGroqKey := Inr (Some ''gsk-third'')\<rparr>)
          (snd (getAPIKey (blank_world\<lparr>getOpenAIKey := Inr (Some ''sk-first'')\<rparr>) new_manager)))
      = Inr (Some ''gsk-third'')
   \<and> cachedApiKey (snd (getAPIKey
          (blank_world\<lparr>localStorage := [''cloudTranscriptionProvider'' \<mapsto> ''groq''],
                        getGroqKey := Inr (Some ''gsk-third'')\<rparr>)
          (snd (getAPIKey (blank_world\<lparr>getOpenAIKey := Inr (Some ''sk-first'')\<rparr>) new_manager))))
      = Some ''gsk-third''
   \<and> cachedApiKeyProvider (snd (getAPIKey
          (blank_world\<lparr>localStorage := [''cloudTranscriptionProvider'' \<mapsto> ''groq''],
                        getGroqKey := Inr (Some ''gsk-third'')\<rparr>)
          (snd (getAPIKey (blank_world\<lparr>getOpenAIKey := Inr (Some ''sk-first'')\<rparr>) new_manager))))
      = Some ''groq''
   \<and> cachedApiKeyProvider
          (snd (getAPIKey (blank_world\<lparr>getOpenAIKey := Inr (Some ''sk-first'')\<rparr>) new_manager))
      \<noteq> Some ''groq''
   \<and> fst (getAPIKey (blank_world\<lparr>localStorage := [''cloudTranscriptionProvider'' \<mapsto> ''custom'']\<rparr>)
          new_manager)
      = Inr None
   \<and> fst (getAPIKey
          (blank_world\<lparr>localStorage := [''cloudTranscriptionProvider'' \<mapsto> ''custom'',
                                         ''customTranscriptionApiKey'' \<mapsto> ''sk-late'']\<rparr>)
          (snd (getAPIKey
             (blank_world\<lparr>localStorage := [''cloudTranscriptionProvider'' \<mapsto> ''custom'']\<rparr>)
             new_manager)))
      = Inr (Some ''sk-late'')"
proof -
  let ?w1 = "blank_world\<lparr>getOpenAIKey := Inr (Some ''sk-first'')\<rparr>"
  let ?w2 = "blank_world\<lparr>getOpenAIKey := Inr (Some ''sk-second'')\<rparr>"
  let ?wg = "blank_world\<lparr>localStorage := [''cloudTranscriptionProvider'' \<mapsto> ''groq''],
                          getGroqKey := Inr (Some ''gsk-third'')\<rparr>"
  let ?wc = "blank_world\<lparr>localStorage := [''cloudTranscriptionProvider'' \<mapsto> ''custom'']\<rparr>"
  let ?wl = "blank_world\<lparr>localStorage := [''cloudTranscriptionProvider'' \<mapsto> ''custom'',
                                             ''customTranscriptionApiKey'' \<mapsto> ''sk-late'']\<rparr>"
  let ?m1 = "new_manager\<lparr>cachedApiKey := Some ''sk-first'', cachedApiKeyProvider := Some ''openai''\<rparr>"
  let ?mc = "new_manager\<lparr>cachedApiKey := None, cachedApiKeyProvider := Some ''custom''\<rparr>"
  note defs = getAPIKey_def retrieveApiKey_def cloudProvider_def item_or_def truthy_def
    blank_world_def new_manager_def isValidApiKey_def trim_def is_ws_def PLACEHOLDER_KEYS_def
  have first: "getAPIKey ?w1 new_manager = (Inr (Some ''sk-first''), ?m1)"
    by (simp add: defs)
  have same: "cloudProvider ?w2 = cloudProvider ?w1"
    by (simp add: cloudProvider_def blank_world_def)
  have second: "getAPIKey ?w2 ?m1 = (Inr (Some ''sk-first''), ?m1)"
    using getAPIKey_cache_keyed_on_provider
      [of ?w1 new_manager "''sk-first''" ?m1 ?w2, THEN conjunct1, THEN mp] first same
    by blast
  have pg: "cloudProvider ?wg = ''groq''"
    by (simp add: cloudProvider_def item_or_def blank_world_def)
  have other: "cachedApiKeyProvider ?m1 \<noteq> Some (cloudProvider ?wg)"
    by (simp add: pg)
  have rg: "retrieveApiKey ?wg (cloudProvider ?wg) = Inr (Some ''gsk-third'')"
    by (simp add: defs)
  note miss = getAPIKey_cache_keyed_on_provider
      [where m = ?m1 and w = ?wg, THEN conjunct2, THEN conjunct2, THEN conjunct1, THEN mp,
        OF other]
  have third: "fst (getAPIKey ?wg ?m1) = Inr (Some ''gsk-third'')"
    using miss [THEN conjunct1] rg by simp
  have fourth: "cachedApiKey (snd (getAPIKey ?wg ?m1)) = Some ''gsk-third''
      \<and> cachedApiKeyProvider (snd (getAPIKey ?wg ?m1)) = Some ''groq''"
    using miss [THEN conjunct2, THEN spec, THEN mp, OF rg] pg by simp
  have "cachedApiKey ?m1 = Some ''sk-first''
      \<and> cachedApiKey (snd (getAPIKey ?wg ?m1)) \<noteq> Some ''sk-first''"
    using fourth by simp
  then have "cachedApiKeyProvider ?m1 \<noteq> Some (cloudProvider ?wg)"
    using getAPIKey_cache_keyed_on_provider
      [where m = ?m1 and k = "''sk-first''" and w = ?wg, THEN conjunct2, THEN conjunct1, THEN mp]
    by blast
  then have fifth: "cachedApiKeyProvider ?m1 \<noteq> Some ''groq''"
    by (simp add: pg)
  have null: "getAPIKey ?wc new_manager = (Inr None, ?mc)"
    by (simp add: defs)
  have rl: "retrieveApiKey ?wl (cloudProvider ?wl) = Inr (Some ''sk-late'')"
    by (simp add: defs)
  have sixth: "fst (getAPIKey ?wl ?mc) = Inr (Some ''sk-late'')"
    using getAPIKey_cache_keyed_on_provider
      [where ?w1.0 = ?wc and m = new_manager and ?m1.0 = ?mc and ?w2.0 = ?wl,
        THEN conjunct2, THEN conjunct2, THEN conjunct2, THEN mp, OF null, THEN conjunct2]
      rl by simp
  from first second third fourth fifth null sixth show ?thesis by simp
qed

text \<open>
  C10 as stated fails for the custom provider without a key: the first call returns
  \<open>null\<close>, which the cache check \<open>cachedApiKey !== null\<close> takes as an empty cache, and
  the second call, under the same provider, reads the stores again and returns the key
  stored in between.
\<close>

theorem getAPIKey_null_key_counterexample:
  "fst (getAPIKey (blank_world\<lparr>localStorage := [''cloudTranscriptionProvider'' \<mapsto> ''custom'']\<rparr>) new_manager) = Inr None
   \<and> fst (getAPIKey (blank_world\<lparr>localStorage := [''cloudTranscriptionProvider'' \<mapsto> ''custom'',
                                                  ''customTranscriptionApiKey'' \<mapsto> ''sk-late'']\<rparr>)
        (snd (getAPIKey (blank_world\<lparr>localStorage := [''cloudTranscriptionProvider'' \<mapsto> ''custom'']\<rparr>) new_manager)))
      = Inr (Some ''sk-late'')"
  by (simp add: getAPIKey_def retrieveApiKey_def cloudProvider_def item_or_def truthy_def blank_world_def new_manager_def isValidApiKey_def trim_def is_ws_def PLACEHOLDER_KEYS_def)


subsection \<open>Endpoint resolution\<close>

lemma endpoint_cache_ok_new: "endpoint_cache_ok w new_manager"
  by (simp add: endpoint_cache_ok_def new_manager_def truthy_def)

lemma endpointFromBase_storage:
  "endpointFromBase (w\<lparr>localStorage := ls\<rparr>) c base = endpointFromBase w c base"
  by (simp add: endpointFromBase_def Let_def split: sum.splits)

lemma chooseBase_storage:
  "chooseBase (w\<lparr>localStorage := ls\<rparr>) p b = chooseBase w p b"
  by (simp add: chooseBase_def)

lemma resolveEndpoint_storage:
  "resolveEndpoint (w\<lparr>localStorage := ls\<rparr>) p b = resolveEndpoint w p b"
  by (simp add: resolveEndpoint_def endpointFromBase_storage chooseBase_storage split: sum.splits)

lemma endpoint_cache_ok_storage:
  "endpoint_cache_ok (w\<lparr>localStorage := ls\<rparr>) m = endpoint_cache_ok w m"
  by (simp add: endpoint_cache_ok_def resolveEndpoint_storage split: option.splits)

lemma getTranscriptionEndpoint_resolves:
  assumes "endpoint_cache_ok w m"
  shows "fst (getTranscriptionEndpoint w m) = resolveEndpoint w (cloudProvider w) (storedBaseUrl w)"
  using assms
  by (auto simp: getTranscriptionEndpoint_def endpoint_cache_ok_def Let_def truthy_def item_or_def
      split: if_splits option.splits)

lemma getTranscriptionEndpoint_keeps_cache_ok:
  assumes "endpoint_cache_ok w m"
  shows "endpoint_cache_ok w (snd (getTranscriptionEndpoint w m))"
  using assms
  by (auto simp: getTranscriptionEndpoint_def endpoint_cache_ok_def Let_def truthy_def item_or_def
      split: if_splits option.splits)

text \<open>
  C6. With the cache fields as the class leaves them: for the custom provider, when
  \<open>isSecureEndpoint\<close> rejects the normalised configured base, the resolved endpoint is the
  default \<open>API_ENDPOINTS.TRANSCRIPTION\<close>; for every other provider the resolved endpoint
  is the one built on the provider's own base (\<open>GROQ_BASE\<close> for groq,
  \<open>TRANSCRIPTION_BASE\<close> otherwise), whatever value \<open>v\<close> is stored as the base URL.
\<close>

theorem endpoint_resolution:
  assumes "endpoint_cache_ok w m"
  shows "(cloudProvider w = ''custom''
          \<and> normalizeBaseUrl w (chooseBase w ''custom'' (storedBaseUrl w)) = Inr (Some nb)
          \<and> isSecureEndpoint w nb = Inr False
          \<longrightarrow> fst (getTranscriptionEndpoint w m) = TRANSCRIPTION w)
       \<and> (cloudProvider w \<noteq> ''custom''
          \<longrightarrow> fst (getTranscriptionEndpoint
                    (w\<lparr>localStorage := (localStorage w)(''cloudTranscriptionBaseUrl'' := v)\<rparr>) m)
              = (case endpointFromBase w False
                        (if cloudProvider w = ''groq'' then GROQ_BASE w else TRANSCRIPTION_BASE w) of
                   Inl err \<Rightarrow> TRANSCRIPTION w
                 | Inr endpoint \<Rightarrow> endpoint))"
proof (intro conjI impI)
  assume h: "cloudProvider w = ''custom''
      \<and> normalizeBaseUrl w (chooseBase w ''custom'' (storedBaseUrl w)) = Inr (Some nb)
      \<and> isSecureEndpoint w nb = Inr False"
  then have "resolveEndpoint w (cloudProvider w) (storedBaseUrl w) = TRANSCRIPTION w"
    by (simp add: resolveEndpoint_def endpointFromBase_def Let_def truthy_def item_or_def)
  with assms show "fst (getTranscriptionEndpoint w m) = TRANSCRIPTION w"
    by (simp add: getTranscriptionEndpoint_resolves)
next
  let ?w = "w\<lparr>localStorage := (localStorage w)(''cloudTranscriptionBaseUrl'' := v)\<rparr>"
  assume h: "cloudProvider w \<noteq> ''custom''"
  have p: "cloudProvider ?w = cloudProvider w"
    by (simp add: cloudProvider_def)
  from assms have "endpoint_cache_ok ?w m"
    by (simp add: endpoint_cache_ok_storage)
  then have "fst (getTranscriptionEndpoint ?w m)
      = resolveEndpoint ?w (cloudProvider ?w) (storedBaseUrl ?w)"
    by (rule getTranscriptionEndpoint_resolves)
  also have "\<dots> = resolveEndpoint w (cloudProvider w) (storedBaseUrl ?w)"
    by (simp only: p resolveEndpoint_storage)
  also from h have "\<dots> = (case endpointFromBase w False
                        (if cloudProvider w = ''groq'' then GROQ_BASE w else TRANSCRIPTION_BASE w) of
                   Inl err \<Rightarrow> TRANSCRIPTION w
                 | Inr endpoint \<Rightarrow> endpoint)"
    by (simp add: resolveEndpoint_def chooseBase_def)
  finally show "fst (getTranscriptionEndpoint ?w m)
      = (case endpointFromBase w False
                        (if cloudProvider w = ''groq'' then GROQ_BASE w else TRANSCRIPTION_BASE w) of
                   Inl err \<Rightarrow> TRANSCRIPTION w
                 | Inr endpoint \<Rightarrow> endpoint)" .
qed

text \<open>
  A custom provider with an \<open>http\<close> base gets the default endpoint; groq with the same
  stored base gets the groq endpoint.
\<close>

theorem endpoint_resolution_witness:
  "fst (getTranscriptionEndpoint
          (blank_world\<lparr>localStorage :=
              [''cloudTranscriptionProvider'' \<mapsto> ''custom'',
               ''cloudTranscriptionBaseUrl'' \<mapsto> ''http://stt.example.org/v1/'']\<rparr>)
          new_manager)
      = ''https://api.openai.com/v1/audio/transcriptions''
   \<and> fst (getTranscriptionEndpoint
          (blank_world\<lparr>localStorage :=
              [''cloudTranscriptionProvider'' \<mapsto> ''groq'',
               ''cloudTranscriptionBaseUrl'' \<mapsto> ''http://stt.example.org/v1/'']\<rparr>)
          new_manager)
      = ''https://api.groq.com/openai/v1/audio/transcriptions''"
proof -
  let ?wc = "blank_world\<lparr>localStorage :=
              [''cloudTranscriptionProvider'' \<mapsto> ''custom'',
               ''cloudTranscriptionBaseUrl'' \<mapsto> ''http://stt.example.org/v1/'']\<rparr>"
  let ?wg = "blank_world\<lparr>localStorage := [''cloudTranscriptionProvider'' \<mapsto> ''groq'']\<rparr>"
  have c1: "cloudProvider ?wc = ''custom''"
    by (simp add: cloudProvider_def item_or_def blank_world_def)
  have c2: "normalizeBaseUrl ?wc (chooseBase ?wc ''custom'' (storedBaseUrl ?wc))
      = Inr (Some ''http://stt.example.org/v1'')"
    by (simp add: chooseBase_def storedBaseUrl_def item_or_def blank_world_def trim_def is_ws_def
        endsWith_def)
  have c3: "isSecureEndpoint ?wc ''http://stt.example.org/v1'' = Inr False"
    by (simp add: blank_world_def)
  have a: "fst (getTranscriptionEndpoint ?wc new_manager) = TRANSCRIPTION ?wc"
    using endpoint_resolution
      [where w = ?wc and m = new_manager and nb = "''http://stt.example.org/v1''",
        OF endpoint_cache_ok_new, THEN conjunct1, THEN mp] c1 c2 c3
    by blast
  have g1: "cloudProvider ?wg \<noteq> ''custom''"
    by (simp add: cloudProvider_def item_or_def blank_world_def)
  have g2: "?wg\<lparr>localStorage :=
              (localStorage ?wg)(''cloudTranscriptionBaseUrl'' := Some ''http://stt.example.org/v1/'')\<rparr>
      = blank_world\<lparr>localStorage :=
              [''cloudTranscriptionProvider'' \<mapsto> ''groq'',
               ''cloudTranscriptionBaseUrl'' \<mapsto> ''http://stt.example.org/v1/'']\<rparr>"
    by simp
  have g3: "(case endpointFromBase ?wg False
                 (if cloudProvider ?wg = ''groq'' then GROQ_BASE ?wg else TRANSCRIPTION_BASE ?wg) of
              Inl err \<Rightarrow> TRANSCRIPTION ?wg
            | Inr endpoint \<Rightarrow> endpoint)
      = ''https://api.groq.com/openai/v1/audio/transcriptions''"
    by (simp add: endpointFromBase_def cloudProvider_def item_or_def truthy_def blank_world_def
        endsWith_def has_audio_path_def lower_char_def Let_def)
  have b: "fst (getTranscriptionEndpoint
          (?wg\<lparr>localStorage :=
              (localStorage ?wg)(''cloudTranscriptionBaseUrl'' := Some ''http://stt.example.org/v1/'')\<rparr>)
          new_manager)
      = ''https://api.groq.com/openai/v1/audio/transcriptions''"
    using endpoint_resolution
      [where w = ?wg and m = new_manager and v = "Some ''http://stt.example.org/v1/''",
        OF endpoint_cache_ok_new, THEN conjunct2, THEN mp, OF g1]
    unfolding g3 .
  from a have a': "fst (getTranscriptionEndpoint ?wc new_manager)
      = ''https://api.openai.com/v1/audio/transcriptions''"
    by (simp add: blank_world_def)
  from a' b show ?thesis unfolding g2 by (rule conjI)
qed

subsection \<open>Reasoning failures\<close>

lemma isReasoningAvailable_throws:
  assumes "reasoningIsAvailable w = Inl err"
    and "\<not> (dateNow w < reasoningCacheExpiresAt m
           \<and> cachedReasoningPreference m = localStorage w ''useReasoningModel'')"
  shows "\<not> fst (isReasoningAvailable w m)"
  using assms by (auto simp: isReasoningAvailable_def Let_def)

text \<open>
  C7. When the call \<open>ReasoningService.processText(normalizedText, reasoningModel, agentName)\<close>
  that \<open>processTranscription\<close> makes throws, the method returns the trimmed transcript; so
  it does when \<open>ReasoningService.isAvailable\<close> throws on being asked. The method has no
  outcome other than a text.
\<close>

theorem reasoning_failure_returns_trimmed_text:
  "(reasoningProcessText w (trim raw) (item_or (localStorage w ''reasoningModel'') [])
        (if truthy (localStorage w ''agentName'') then localStorage w ''agentName'' else None)
      = Inl err
      \<longrightarrow> fst (processTranscription w m raw src) = trim raw)
   \<and> (reasoningIsAvailable w = Inl err
       \<and> \<not> (dateNow w < reasoningCacheExpiresAt m
              \<and> cachedReasoningPreference m = localStorage w ''useReasoningModel'')
      \<longrightarrow> fst (processTranscription w m raw src) = trim raw)"
proof (intro conjI impI)
  assume h: "reasoningProcessText w (trim raw) (item_or (localStorage w ''reasoningModel'') [])
        (if truthy (localStorage w ''agentName'') then localStorage w ''agentName'' else None)
      = Inl err"
  then show "fst (processTranscription w m raw src) = trim raw"
    by (auto simp: processTranscription_def processWithReasoningModel_def Let_def
        split: prod.splits sum.splits if_splits)
next
  assume h: "reasoningIsAvailable w = Inl err
       \<and> \<not> (dateNow w < reasoningCacheExpiresAt m
              \<and> cachedReasoningPreference m = localStorage w ''useReasoningModel'')"
  then have "\<not> fst (isReasoningAvailable w m)"
    using isReasoningAvailable_throws by blast
  then show "fst (processTranscription w m raw src) = trim raw"
    by (auto simp: processTranscription_def Let_def split: prod.splits sum.splits)
qed

text \<open>
  Both failures, on a transcript with a no-break space and blanks around it. In the first
  world the service rejects the configured model \<open>gpt-5\<close> only.
\<close>

theorem reasoning_failure_returns_trimmed_text_witness:
  "fst (processTranscription
          (blank_world\<lparr>localStorage := [''reasoningModel'' \<mapsto> ''gpt-5'', ''useReasoningModel'' \<mapsto> ''true''],
                        reasoningIsAvailable := Inr True,
                        reasoningProcessText := (\<lambda>text model agentName.
                          if model = ''gpt-5'' then Inl ''Network down'' else Inr ''rewritten'')\<rparr>)
          new_manager (CHR 0xA0 # ''  hello world  '') ''local'')
      = ''hello world''
   \<and> fst (processTranscription
          (blank_world\<lparr>localStorage := [''reasoningModel'' \<mapsto> ''gpt-5'', ''useReasoningModel'' \<mapsto> ''true''],
                        reasoningIsAvailable := Inl ''IPC closed''\<rparr>)
          new_manager (CHR 0xA0 # ''  hello world  '') ''local'')
      = ''hello world''"
proof -
  let ?w1 = "blank_world\<lparr>localStorage := [''reasoningModel'' \<mapsto> ''gpt-5'', ''useReasoningModel'' \<mapsto> ''true''],
                        reasoningIsAvailable := Inr True,
                        reasoningProcessText := (\<lambda>text model agentName.
                          if model = ''gpt-5'' then Inl ''Network down'' else Inr ''rewritten'')\<rparr>"
  let ?w2 = "blank_world\<lparr>localStorage := [''reasoningModel'' \<mapsto> ''gpt-5'', ''useReasoningModel'' \<mapsto> ''true''],
                        reasoningIsAvailable := Inl ''IPC closed''\<rparr>"
  let ?raw = "CHR 0xA0 # ''  hello world  ''"
  have t: "trim ?raw = ''hello world''"
    by (simp add: trim_def is_ws_def)
  have h1: "reasoningProcessText ?w1 (trim ?raw) (item_or (localStorage ?w1 ''reasoningModel'') [])
        (if truthy (localStorage ?w1 ''agentName'') then localStorage ?w1 ''agentName'' else None)
      = Inl ''Network down''"
    by (simp add: item_or_def)
  have a: "fst (processTranscription ?w1 new_manager ?raw ''local'') = trim ?raw"
    using reasoning_failure_returns_trimmed_text
      [where w = ?w1 and raw = ?raw and m = new_manager and src = "''local''",
        THEN conjunct1, THEN mp, OF h1] .
  have h2: "reasoningIsAvailable ?w2 = Inl ''IPC closed''
       \<and> \<not> (dateNow ?w2 < reasoningCacheExpiresAt new_manager
              \<and> cachedReasoningPreference new_manager = localStorage ?w2 ''useReasoningModel'')"
    by (simp add: new_manager_def)
  have b: "fst (processTranscription ?w2 new_manager ?raw ''local'') = trim ?raw"
    using reasoning_failure_returns_trimmed_text
      [where w = ?w2 and raw = ?raw and m = new_manager and src = "''local''",
        THEN conjunct2, THEN mp, OF h2] .
  from a b show ?thesis unfolding t by (rule conjI)
qed


subsection \<open>The WAV encoder\<close>

text \<open>Four bytes, least significant first, read back as the number they were written from.\<close>

lemma nat_bytes32:
  fixes n :: nat
  assumes "n < 4294967296"
  shows "n mod 256 + 256 * (n div 256 mod 256) + 65536 * (n div 65536 mod 256)
         + 16777216 * (n div 16777216 mod 256) = n"
proof -
  define a where "a = n div 256"
  define b where "b = a div 256"
  define c where "c = b div 256"
  have n: "n = n mod 256 + 256 * a" unfolding a_def by simp
  have a: "a = a mod 256 + 256 * b" unfolding b_def by simp
  have b: "b = b mod 256 + 256 * c" unfolding c_def by simp
  have b': "n div 65536 = b"
    unfolding b_def a_def by (simp add: div_mult2_eq [symmetric])
  have c': "n div 16777216 = c"
    unfolding c_def b_def a_def by (simp add: div_mult2_eq [symmetric])
  from assms have "c < 256" unfolding c' [symmetric] by simp
  then have c: "c mod 256 = c" by simp
  have "n mod 256 + 256 * (a mod 256) + 65536 * (b mod 256) + 16777216 * c = n"
    using n a b by linarith
  then show ?thesis
    unfolding b' c' c a_def [symmetric] .
qed

lemma nat_bytes16:
  fixes n :: nat
  assumes "n < 65536"
  shows "n mod 256 + 256 * (n div 256 mod 256) = n"
proof -
  from assms have "n div 256 < 256" by simp
  then have "n div 256 mod 256 = n div 256" by simp
  then show ?thesis by simp
qed

lemma le32_read:
  fixes w :: "32 word"
  shows "unat (ucast w :: 8 word) + 256 * unat (ucast (drop_bit 8 w) :: 8 word)
     + 65536 * unat (ucast (drop_bit 16 w) :: 8 word)
     + 16777216 * unat (ucast (drop_bit 24 w) :: 8 word) = unat w"
proof -
  have b: "unat w < 4294967296" using unsigned_less [of w, where 'a = nat] by simp
  have e: "unat (ucast (drop_bit k w) :: 8 word) = unat w div 2 ^ k mod 256" for k
    by (simp only: unsigned_ucast_eq unat_drop_bit_eq) (simp add: take_bit_eq_mod drop_bit_eq_div)
  have e0: "unat (ucast w :: 8 word) = unat w mod 256"
    by (simp only: unsigned_ucast_eq take_bit_eq_mod) simp
  show ?thesis
    using nat_bytes32 [OF b] e [of 8] e [of 16] e [of 24] e0 by simp
qed

lemma le16_read:
  fixes w :: "16 word"
  shows "unat (ucast w :: 8 word) + 256 * unat (ucast (drop_bit 8 w) :: 8 word) = unat w"
proof -
  have b: "unat w < 65536" using unsigned_less [of w, where 'a = nat] by simp
  have e: "unat (ucast (drop_bit k w) :: 8 word) = unat w div 2 ^ k mod 256" for k
    by (simp only: unsigned_ucast_eq unat_drop_bit_eq) (simp add: take_bit_eq_mod drop_bit_eq_div)
  have e0: "unat (ucast w :: 8 word) = unat w mod 256"
    by (simp only: unsigned_ucast_eq take_bit_eq_mod) simp
  show ?thesis
    using nat_bytes16 [OF b] e [of 8] e0 by simp
qed


text \<open>
  The sample loop fills the bytes after the header, two per sample, and the encoder's
  output is the header followed by the samples, for every buffer.
\<close>

lemma length_sample_bytes: "length (concat (map sample_bytes xs)) = 2 * length xs"
  by (induction xs) (simp_all add: sample_bytes_def le16_def)

lemma writeSamples_fills:
  "2 * length xs \<le> length r \<Longrightarrow>
   writeSamples (h @ r) (length h) xs
     = Some (h @ concat (map sample_bytes xs) @ drop (2 * length xs) r)"
proof (induction xs arbitrary: h r)
  case Nil
  then show ?case by simp
next
  case (Cons x xs)
  then obtain a b r' where r: "r = a # b # r'"
    by (cases r; cases "tl r") auto
  with Cons.prems have len: "2 * length xs \<le> length r'" by simp
  let ?v = "toInt16 (scaleSample (clampSample x))"
  have step: "setInt16 (h @ r) (length h) ?v = Some ((h @ sample_bytes x) @ r')"
    by (simp add: r setInt16_def setUint16_def sample_bytes_def le16_def list_update_append)
  have "writeSamples ((h @ sample_bytes x) @ r') (length (h @ sample_bytes x)) xs
      = Some ((h @ sample_bytes x) @ concat (map sample_bytes xs) @ drop (2 * length xs) r')"
    by (rule Cons.IH [OF len])
  moreover have "length (h @ sample_bytes x) = length h + 2"
    by (simp add: sample_bytes_def le16_def)
  ultimately show ?case using step by (simp add: r)
qed

lemma length_wav_header: "length (wav_header len rate) = 44"
  by (simp add: wav_header_def le32_def le16_def)

lemma replicate_44: "replicate 44 (0::8 word) =
  [0,0,0,0, 0,0,0,0, 0,0,0,0, 0,0,0,0, 0,0,0,0, 0,0,0,0, 0,0,0,0, 0,0,0,0, 0,0,0,0, 0,0,0,0, 0,0,0,0]"
  by (simp add: numeral_eq_Suc)

lemma header_then_samples:
  "audioBufferToWav buffer
     = writeSamples (wav_header (length (channelData buffer)) (sampleRate buffer)
                      @ replicate (length (channelData buffer) * 2) 0)
         44 (channelData buffer)"
  by (simp add: audioBufferToWav_def Let_def replicate_add replicate_44 wav_header_def le32_def le16_def
      setUint8_def setUint16_def setUint32_def)

lemma audioBufferToWav_bytes:
  "audioBufferToWav buffer
     = Some (wav_header (length (channelData buffer)) (sampleRate buffer)
             @ concat (map sample_bytes (channelData buffer)))"
proof -
  let ?h = "wav_header (length (channelData buffer)) (sampleRate buffer)"
  let ?r = "replicate (length (channelData buffer) * 2) (0::8 word)"
  have "writeSamples (?h @ ?r) (length ?h) (channelData buffer)
      = Some (?h @ concat (map sample_bytes (channelData buffer))
              @ drop (2 * length (channelData buffer)) ?r)"
    by (rule writeSamples_fills) simp
  then show ?thesis
    by (simp add: header_then_samples length_wav_header)
qed

lemma header_fields:
  "marker_at (wav_header len rate @ p) 0 ''RIFF''"
  "marker_at (wav_header len rate @ p) 8 ''WAVE''"
  "marker_at (wav_header len rate @ p) 12 ''fmt ''"
  "marker_at (wav_header len rate @ p) 36 ''data''"
  "getUint16 (wav_header len rate @ p) 20 = 1"
  "getUint16 (wav_header len rate @ p) 22 = 1"
  "getUint16 (wav_header len rate @ p) 32 = 2"
  "getUint16 (wav_header len rate @ p) 34 = 16"
  by (simp_all add: marker_at_def getUint16_def wav_header_def le32_def le16_def)

lemma header_sizes:
  "getUint32 (wav_header len rate @ p) 4 = (36 + len * 2) mod 2 ^ 32"
  "getUint32 (wav_header len rate @ p) 40 = (len * 2) mod 2 ^ 32"
proof -
  have a: "getUint32 (wav_header len rate @ p) 4 = unat (of_nat (36 + len * 2) :: 32 word)"
    unfolding le32_read [symmetric]
    by (simp add: getUint32_def wav_header_def le32_def le16_def)
  show "getUint32 (wav_header len rate @ p) 4 = (36 + len * 2) mod 2 ^ 32"
    unfolding a unat_of_nat by simp
  have b: "getUint32 (wav_header len rate @ p) 40 = unat (of_nat (len * 2) :: 32 word)"
    unfolding le32_read [symmetric]
    by (simp add: getUint32_def wav_header_def le32_def le16_def)
  show "getUint32 (wav_header len rate @ p) 40 = (len * 2) mod 2 ^ 32"
    unfolding b unat_of_nat by simp
qed


text \<open>
  C8, for buffers whose sizes fit the 32-bit fields of the header. For a buffer of \<open>N\<close>
  samples with \<open>36 + 2N < 2^32\<close> the encoder returns (no write is out of range)
  exactly \<open>44 + 2N\<close> bytes: the markers RIFF, WAVE, fmt and data at offsets 0, 8, 12 and
  36, the declared chunk sizes \<open>36 + 2N\<close> and \<open>2N\<close>, format tag 1, one channel, 16 bits
  per sample, then two little-endian bytes per sample; and a reader of the header finds
  \<open>N\<close> samples.
\<close>

theorem wav_encoding_layout:
  assumes "36 + 2 * length (channelData buffer) < 2 ^ 32"
  shows "\<exists>bytes. audioBufferToWav buffer = Some bytes
     \<and> length bytes = 44 + 2 * length (channelData buffer)
     \<and> marker_at bytes 0 ''RIFF''
     \<and> getUint32 bytes 4 = 36 + 2 * length (channelData buffer)
     \<and> marker_at bytes 8 ''WAVE''
     \<and> marker_at bytes 12 ''fmt ''
     \<and> getUint16 bytes 20 = 1
     \<and> getUint16 bytes 22 = 1
     \<and> getUint16 bytes 34 = 16
     \<and> marker_at bytes 36 ''data''
     \<and> getUint32 bytes 40 = 2 * length (channelData buffer)
     \<and> drop 44 bytes = concat (map sample_bytes (channelData buffer))
     \<and> wav_sample_count bytes = length (channelData buffer)"
proof -
  let ?n = "length (channelData buffer)"
  let ?p = "concat (map sample_bytes (channelData buffer))"
  let ?bytes = "wav_header ?n (sampleRate buffer) @ ?p"
  have out: "audioBufferToWav buffer = Some ?bytes"
    by (rule audioBufferToWav_bytes)
  have len: "length ?bytes = 44 + 2 * ?n"
    by (simp add: length_wav_header length_sample_bytes)
  from assms have riff: "getUint32 ?bytes 4 = 36 + 2 * ?n"
    by (simp add: header_sizes(1) mult.commute)
  from assms have data: "getUint32 ?bytes 40 = 2 * ?n"
    by (simp add: header_sizes(2) mult.commute)
  have payload: "drop 44 ?bytes = ?p"
    by (simp add: length_wav_header)
  have count: "wav_sample_count ?bytes = ?n"
    unfolding wav_sample_count_def data header_fields(7) by simp
  from out len riff data payload count header_fields [of ?n "sampleRate buffer" ?p]
  show ?thesis by blast
qed

text \<open>
  Six samples at 16 kHz: silence, both full-scale values, a half, NaN and an infinity.
\<close>

theorem wav_encoding_layout_witness:
  "\<exists>bytes. audioBufferToWav
        \<lparr>sampleRate = 16000,
         channelData = [F32 0, F32 1, F32 (- 1), F32 (1 / 2), F32_NaN, F32_PosInf]\<rparr> = Some bytes
     \<and> length bytes = 56
     \<and> getUint32 bytes 4 = 48
     \<and> getUint32 bytes 40 = 12
     \<and> drop 44 bytes = [0, 0, 255, 127, 0, 128, 255, 63, 0, 0, 255, 127]
     \<and> wav_sample_count bytes = 6"
proof -
  let ?b = "\<lparr>sampleRate = 16000,
         channelData = [F32 0, F32 1, F32 (- 1), F32 (1 / 2), F32_NaN, F32_PosInf]\<rparr>"
  have h: "36 + 2 * length (channelData ?b) < 2 ^ 32" by simp
  have fl: "\<lfloor>(32767::rat) / 2\<rfloor> = 16383"
    by (rule floor_unique) simp_all
  have p: "concat (map sample_bytes (channelData ?b))
      = [0, 0, 255, 127, 0, 128, 255, 63, 0, 0, 255, 127]"
    by (simp add: sample_bytes_def le16_def toInt16_def scaleSample_def clampSample_def fl)
  from wav_encoding_layout [OF h] obtain bytes where
    "audioBufferToWav ?b = Some bytes"
    "length bytes = 44 + 2 * length (channelData ?b)"
    "getUint32 bytes 4 = 36 + 2 * length (channelData ?b)"
    "getUint32 bytes 40 = 2 * length (channelData ?b)"
    "drop 44 bytes = concat (map sample_bytes (channelData ?b))"
    "wav_sample_count bytes = length (channelData ?b)"
    by blast
  then show ?thesis unfolding p by simp
qed

text \<open>
  C8 as stated, for every buffer, fails where the sizes leave 32 bits: \<open>setUint32\<close>
  stores its argument modulo \<open>2^32\<close>, so for \<open>N = 2^31 - 18\<close> samples the declared RIFF
  chunk size is 0, not \<open>36 + 2N = 2^32\<close>.
\<close>

theorem wav_size_field_wraps_counterexample:
  "audioBufferToWav \<lparr>sampleRate = 16000, channelData = replicate 2147483630 (F32 0)\<rparr>
     = Some (wav_header 2147483630 16000
             @ concat (map sample_bytes (replicate 2147483630 (F32 0))))
   \<and> getUint32 (wav_header 2147483630 16000
                 @ concat (map sample_bytes (replicate 2147483630 (F32 0)))) 4 = 0
   \<and> 36 + 2 * length (replicate 2147483630 (F32 0)) = (4294967296 :: nat)"
proof (intro conjI)
  show "audioBufferToWav \<lparr>sampleRate = 16000, channelData = replicate 2147483630 (F32 0)\<rparr>
     = Some (wav_header 2147483630 16000
             @ concat (map sample_bytes (replicate 2147483630 (F32 0))))"
    using audioBufferToWav_bytes
      [of "\<lparr>sampleRate = 16000, channelData = replicate 2147483630 (F32 0)\<rparr>"]
    by (simp only: audio_buffer.select_convs length_replicate)
  have "(36 + 2147483630 * 2) mod 2 ^ 32 = (0::nat)" by simp
  then show "getUint32 (wav_header 2147483630 16000
                 @ concat (map sample_bytes (replicate 2147483630 (F32 0)))) 4 = 0"
    by (simp only: header_sizes(1))
  show "36 + 2 * length (replicate 2147483630 (F32 0)) = (4294967296 :: nat)"
    by (simp only: length_replicate)
qed


subsection \<open>The streaming response reader\<close>

text \<open>Reads that carry whole records: the lines of a read are the records' lines.\<close>

lemma split_lines_nonempty: "split_lines s \<noteq> []"
  by (induction s) (auto split: list.splits)

lemma split_lines_line:
  "CHR 0x0A \<notin> set l \<Longrightarrow> split_lines (l @ CHR 0x0A # rest) = l # split_lines rest"
  by (induction l) (auto split: list.splits)

lemma data_line_no_newline: "CHR 0x0A \<notin> set d \<Longrightarrow> CHR 0x0A \<notin> set (data_line d)"
  by (simp add: data_line_def)

lemma split_lines_frame:
  assumes "CHR 0x0A \<notin> set d"
  shows "split_lines (frame d @ rest) = data_line d # [] # split_lines rest"
proof -
  have "split_lines (data_line d @ CHR 0x0A # (CHR 0x0A # rest))
      = data_line d # split_lines (CHR 0x0A # rest)"
    by (rule split_lines_line [OF data_line_no_newline [OF assms]])
  then show ?thesis by (simp add: frame_def)
qed

lemma trim_data_line:
  assumes "d \<noteq> []" and "\<not> is_ws (last d)"
  shows "trim (data_line d) = data_line d"
proof -
  have "dropWhile is_ws (''data: '' @ d) = ''data: '' @ d"
    by (simp add: is_ws_def)
  moreover from assms have "dropWhile is_ws (rev (''data: '' @ d)) = rev (''data: '' @ d)"
    by (cases d rule: rev_cases) (simp_all add: is_ws_def)
  ultimately show ?thesis by (simp add: trim_def data_line_def)
qed

lemma data_line_prefix:
  "data_line d \<noteq> []" "startsWith (data_line d) ''data: ''" "slice 6 (data_line d) = d"
  by (simp_all add: data_line_def slice_def)

lemma handleEvent_carries:
  "carries p ev \<Longrightarrow> handleEvent p st = applyEvent st ev"
  by (cases ev) (auto simp: handleEvent_def str_field_def item_or_def)

lemma processLine_record:
  assumes "on_wire parse d ev"
  shows "processLine parse st (data_line d) = applyEvent st ev"
proof -
  from assms have d: "d \<noteq> []" "\<not> is_ws (last d)" by (simp_all add: on_wire_def)
  have t: "trim (data_line d) = data_line d" by (rule trim_data_line [OF d])
  have "processLine parse st (data_line d) = handleData parse st (data_line d) d"
    by (simp add: processLine_def t data_line_prefix)
  also have "\<dots> = applyEvent st ev"
  proof (cases "ev = DoneMarker")
    case True
    with assms show ?thesis by (simp add: on_wire_def handleData_def)
  next
    case False
    with assms obtain p where "parse d = Some p" "carries p ev" "d \<noteq> ''[DONE]''"
      by (auto simp: on_wire_def split: option.splits)
    then show ?thesis by (simp add: handleData_def handleEvent_carries)
  qed
  finally show ?thesis .
qed

lemma processLine_empty: "processLine parse st [] = st"
  by (simp add: processLine_def trim_def)

lemma applyEvent_buffer: "rs_buffer (applyEvent st ev) = rs_buffer st"
  by (cases ev) simp_all

lemma foldl_applyEvent_buffer: "rs_buffer (foldl applyEvent st evs) = rs_buffer st"
  by (induction evs arbitrary: st) (simp_all add: applyEvent_buffer)

lemma processLines_frames:
  assumes "\<forall>r \<in> set recs. on_wire parse (fst r) (snd r)"
  shows "foldl (processLine parse) st (split_lines (frames recs))
         = foldl applyEvent st (map snd recs)"
  using assms
proof (induction recs arbitrary: st)
  case Nil
  then show ?case by (simp add: frames_def processLine_empty)
next
  case (Cons r recs)
  then have w: "on_wire parse (fst r) (snd r)" by simp
  then have nl: "CHR 0x0A \<notin> set (fst r)" by (simp add: on_wire_def)
  have "split_lines (frames (r # recs))
      = data_line (fst r) # [] # split_lines (frames recs)"
    using split_lines_frame [OF nl, of "frames recs"] by (simp add: frames_def)
  then show ?case
    using Cons by (simp add: processLine_record [OF w] processLine_empty)
qed

lemma readChunk_frames:
  assumes "\<forall>r \<in> set recs. on_wire parse (fst r) (snd r)" and "rs_buffer st = []"
  shows "readChunk parse st (frames recs) = foldl applyEvent st (map snd recs)"
proof -
  from assms(2) have e: "st\<lparr>rs_buffer := []\<rparr> = st" by simp
  show ?thesis
    unfolding readChunk_def e assms(2)
    by (simp add: processLines_frames [OF assms(1)])
qed

lemma readChunks_frames:
  assumes "\<forall>recs \<in> set reads. \<forall>r \<in> set recs. on_wire parse (fst r) (snd r)"
    and "rs_buffer st = []"
  shows "foldl (readChunk parse) st (map frames reads)
         = foldl applyEvent st (map snd (concat reads))"
  using assms
proof (induction reads arbitrary: st)
  case Nil
  then show ?case by simp
next
  case (Cons recs reads)
  then have "readChunk parse st (frames recs) = foldl applyEvent st (map snd recs)"
    by (simp add: readChunk_frames)
  moreover have "rs_buffer (foldl applyEvent st (map snd recs)) = []"
    using Cons.prems(2) by (simp add: foldl_applyEvent_buffer)
  ultimately show ?case using Cons by simp
qed


text \<open>The result after a sequence of events.\<close>

lemma streamResult_no_done:
  "List.map_filter done_text evs = [] \<Longrightarrow>
   streamResult (foldl applyEvent st evs)
     = (case rs_finalText st of
          Some f \<Rightarrow> f
        | None \<Rightarrow> rs_collectedText st
                  @ concat (map fragment (takeWhile (\<lambda>ev. ev \<noteq> DoneMarker) evs)))"
proof (induction evs arbitrary: st)
  case Nil
  then show ?case by (simp add: streamResult_def split: option.splits)
next
  case (Cons ev evs)
  show ?case
  proof (cases ev)
    case (Delta t)
    with Cons.prems have "List.map_filter done_text evs = []"
      by (simp add: List.map_filter_simps)
    from Cons.IH [OF this, of "applyEvent st ev"] Delta show ?thesis
      by (cases "rs_finalText st") simp_all
  next
    case (Segment t)
    with Cons.prems have "List.map_filter done_text evs = []"
      by (simp add: List.map_filter_simps)
    from Cons.IH [OF this, of "applyEvent st ev"] Segment show ?thesis
      by (cases "rs_finalText st") simp_all
  next
    case (Done t)
    with Cons.prems show ?thesis by (simp add: List.map_filter_simps)
  next
    case DoneMarker
    with Cons.prems have "List.map_filter done_text evs = []"
      by (simp add: List.map_filter_simps)
    from Cons.IH [OF this, of "applyEvent st ev"] DoneMarker show ?thesis
      by (cases "rs_finalText st") (simp_all add: streamResult_def)
  qed
qed

lemma streamResult_done:
  "List.map_filter done_text evs \<noteq> [] \<Longrightarrow>
   streamResult (foldl applyEvent st evs) = last (List.map_filter done_text evs)"
proof (induction evs arbitrary: st)
  case Nil
  then show ?case by (simp add: List.map_filter_simps)
next
  case (Cons ev evs)
  show ?case
  proof (cases ev)
    case (Done t)
    show ?thesis
    proof (cases "List.map_filter done_text evs = []")
      case True
      from streamResult_no_done [OF True, of "applyEvent st ev"] Done True show ?thesis
        by (simp add: List.map_filter_simps)
    next
      case False
      from Cons.IH [OF False, of "applyEvent st ev"] Done False show ?thesis
        by (simp add: List.map_filter_simps)
    qed
  next
    case (Delta t)
    with Cons.prems have ne: "List.map_filter done_text evs \<noteq> []"
      by (simp add: List.map_filter_simps)
    from Cons.IH [OF ne, of "applyEvent st ev"] Delta show ?thesis
      by (simp add: List.map_filter_simps)
  next
    case (Segment t)
    with Cons.prems have ne: "List.map_filter done_text evs \<noteq> []"
      by (simp add: List.map_filter_simps)
    from Cons.IH [OF ne, of "applyEvent st ev"] Segment show ?thesis
      by (simp add: List.map_filter_simps)
  next
    case DoneMarker
    with Cons.prems have ne: "List.map_filter done_text evs \<noteq> []"
      by (simp add: List.map_filter_simps)
    from Cons.IH [OF ne, of "applyEvent st ev"] DoneMarker show ?thesis
      by (simp add: List.map_filter_simps)
  qed
qed

lemma streamResult_events:
  "streamResult (foldl applyEvent
       \<lparr> rs_buffer = [], rs_collectedText = [], rs_finalText = None \<rparr> evs)
   = expected_text evs"
proof (cases "List.map_filter done_text evs = []")
  case True
  from streamResult_no_done [OF True] True show ?thesis
    by (simp add: expected_text_def)
next
  case False
  from streamResult_done [OF False] False show ?thesis
    by (simp add: expected_text_def split: list.splits)
qed

text \<open>
  Reads that end at record boundaries. When every read carries whole records, the reader
  returns what the specification describes for the sequence of their events: delta and
  segment texts are appended in arrival order; the text of a done payload, when one was
  observed, is the result, overriding the accumulation; with no done payload the fragments
  accumulated when the done-marker arrived are the result (and all fragments when no
  marker arrives).
\<close>

lemma whole_record_reads_result:
  assumes "\<forall>recs \<in> set reads. \<forall>r \<in> set recs. on_wire parse (fst r) (snd r)"
  shows "readTranscriptionStream parse (Some (map frames reads))
         = Inr (expected_text (map snd (concat reads)))"
proof -
  let ?init = "\<lparr> rs_buffer = [], rs_collectedText = [], rs_finalText = None \<rparr>"
  have run: "foldl (readChunk parse) ?init (map frames reads)
      = foldl applyEvent ?init (map snd (concat reads))"
    by (rule readChunks_frames [OF assms]) simp
  show ?thesis
    unfolding readTranscriptionStream_def
    by (simp add: run streamResult_events)
qed

text \<open>
  The two examples of the specification in such reads: deltas \<open>He\<close>, \<open>llo\<close> and the
  done-marker give \<open>Hello\<close>; delta \<open>He\<close> and the done payload \<open>Hi\<close> give \<open>Hi\<close>.
\<close>

lemma whole_record_reads_examples:
  "readTranscriptionStream parse_examples
     (Some [''data: {\"type\":\"transcript.text.delta\",\"delta\":\"He\"}\<newline>\<newline>'',
            ''data: {\"type\":\"transcript.text.delta\",\"delta\":\"llo\"}\<newline>\<newline>data: [DONE]\<newline>\<newline>''])
     = Inr ''Hello''
   \<and> readTranscriptionStream parse_examples
     (Some [''data: {\"type\":\"transcript.text.delta\",\"delta\":\"He\"}\<newline>\<newline>'',
            ''data: {\"type\":\"transcript.text.done\",\"text\":\"Hi\"}\<newline>\<newline>''])
     = Inr ''Hi''"
proof -
  let ?he = "''{\"type\":\"transcript.text.delta\",\"delta\":\"He\"}''"
  let ?llo = "''{\"type\":\"transcript.text.delta\",\"delta\":\"llo\"}''"
  let ?hi = "''{\"type\":\"transcript.text.done\",\"text\":\"Hi\"}''"
  let ?r1 = "[[(?he, Delta ''He'')], [(?llo, Delta ''llo''), (''[DONE]'', DoneMarker)]]"
  let ?r2 = "[[(?he, Delta ''He'')], [(?hi, Done ''Hi'')]]"
  have w: "on_wire parse_examples ?he (Delta ''He'')"
      "on_wire parse_examples ?llo (Delta ''llo'')"
      "on_wire parse_examples ''[DONE]'' DoneMarker"
      "on_wire parse_examples ?hi (Done ''Hi'')"
    by (simp_all add: on_wire_def parse_examples_def is_ws_def)
  have h1: "\<forall>recs \<in> set ?r1. \<forall>r \<in> set recs. on_wire parse_examples (fst r) (snd r)"
    using w by simp
  have h2: "\<forall>recs \<in> set ?r2. \<forall>r \<in> set recs. on_wire parse_examples (fst r) (snd r)"
    using w by simp
  have e1: "expected_text (map snd (concat ?r1)) = ''Hello''"
    by (simp add: expected_text_def List.map_filter_simps)
  have e2: "expected_text (map snd (concat ?r2)) = ''Hi''"
    by (simp add: expected_text_def List.map_filter_simps)
  from whole_record_reads_result [OF h1] whole_record_reads_result [OF h2] e1 e2
  show ?thesis by (simp add: frames_def frame_def data_line_def)
qed

text \<open>
  C3 does not hold of the code: what the reader returns depends on where the reads cut
  the stream. Every line of a read is processed, the last one too, although the read may
  have ended inside it, and a line that is not a data line is put back followed by a line
  feed, so the next read does not continue it. Here the events of the first example of the
  specification, the deltas \<open>He\<close> and \<open>llo\<close> and the done-marker, arrive in two reads,
  and the first read ends after the first two characters of the second record: the result
  is \<open>He\<close>, not \<open>Hello\<close>.
\<close>

theorem reader_loses_record_cut_in_prefix:
  assumes "parse ''{\"type\":\"transcript.text.delta\",\"delta\":\"He\"}''
           = Some (JObj [(''type'', JStr ''transcript.text.delta''), (''delta'', JStr ''He'')])"
  shows "readTranscriptionStream parse
     (Some [''data: {\"type\":\"transcript.text.delta\",\"delta\":\"He\"}\<newline>\<newline>da'',
            ''ta: {\"type\":\"transcript.text.delta\",\"delta\":\"llo\"}\<newline>\<newline>data: [DONE]\<newline>\<newline>''])
     = Inr ''He''"
  using assms
  by (simp add: readTranscriptionStream_def readChunk_def processLine_def handleData_def
      handleEvent_def str_field_def item_or_def
      streamResult_def trim_def is_ws_def slice_def)

text \<open>
  With \<open>JSON.parse\<close> on these texts: the second delta is lost when the read cuts its
  record, and is read when the same records arrive in whole.
\<close>

theorem reader_loses_record_cut_in_prefix_witness:
  "readTranscriptionStream parse_examples
     (Some [''data: {\"type\":\"transcript.text.delta\",\"delta\":\"He\"}\<newline>\<newline>da'',
            ''ta: {\"type\":\"transcript.text.delta\",\"delta\":\"llo\"}\<newline>\<newline>data: [DONE]\<newline>\<newline>''])
     = Inr ''He''
   \<and> readTranscriptionStream parse_examples
     (Some [''data: {\"type\":\"transcript.text.delta\",\"delta\":\"He\"}\<newline>\<newline>'',
            ''data: {\"type\":\"transcript.text.delta\",\"delta\":\"llo\"}\<newline>\<newline>data: [DONE]\<newline>\<newline>''])
     = Inr ''Hello''"
proof -
  have p: "parse_examples ''{\"type\":\"transcript.text.delta\",\"delta\":\"He\"}''
           = Some (JObj [(''type'', JStr ''transcript.text.delta''), (''delta'', JStr ''He'')])"
    by (simp add: parse_examples_def)
  have whole: "readTranscriptionStream parse_examples
     (Some [''data: {\"type\":\"transcript.text.delta\",\"delta\":\"He\"}\<newline>\<newline>'',
            ''data: {\"type\":\"transcript.text.delta\",\"delta\":\"llo\"}\<newline>\<newline>data: [DONE]\<newline>\<newline>''])
     = Inr ''Hello''"
    by (simp add: readTranscriptionStream_def readChunk_def processLine_def handleData_def
      handleEvent_def str_field_def item_or_def parse_examples_def
      streamResult_def trim_def is_ws_def slice_def)
  from reader_loses_record_cut_in_prefix [of parse_examples, OF p] whole show ?thesis
    by (rule conjI)
qed


text \<open>
  A record cut inside its payload. The first read leaves the line with the unparsed first
  part \<open>d1\<close> in the buffer, followed by a line feed; after the second read the lines are
  the first part again, which does not parse, and the second part \<open>d2\<close>, which is no data
  line. Both go back into the buffer, and neither the accumulated text nor the final text
  has changed.
\<close>

lemma split_lines_single: "CHR 0x0A \<notin> set l \<Longrightarrow> split_lines l = [l]"
  by (induction l) (auto split: list.splits)

lemma startsWith_shorter: "startsWith s (p @ q) \<Longrightarrow> startsWith s p"
  by (induction s p rule: startsWith.induct) auto

lemma cut_record_is_never_parsed:
  assumes "parse d1 = None" and "d1 \<noteq> []" and "CHR 0x0A \<notin> set d1"
    and "\<not> is_ws (last d1)" and "d1 \<noteq> ''[DONE]''"
    and "CHR 0x0A \<notin> set d2" and "trim d2 \<noteq> []"
    and "\<not> startsWith (trim d2) ''data:''"
    and "rs_buffer st = []"
  shows "readChunk parse (readChunk parse st (data_line d1)) (d2 @ [CHR 0x0A, CHR 0x0A])
         = st\<lparr>rs_buffer := data_line d1 @ [CHR 0x0A] @ d2 @ [CHR 0x0A]\<rparr>"
proof -
  have t: "trim (data_line d1) = data_line d1"
    by (rule trim_data_line [OF assms(2) assms(4)])
  have held: "processLine parse s (data_line d1)
      = s\<lparr>rs_buffer := rs_buffer s @ data_line d1 @ [CHR 0x0A]\<rparr>" for s
    using assms(1) assms(5)
    by (simp add: processLine_def t data_line_prefix handleData_def)
  have nd: "\<not> startsWith (trim d2) ''data: ''"
    using assms(8) startsWith_shorter [of "trim d2" "''data:''" "'' ''"] by auto
  have kept: "processLine parse s d2 = s\<lparr>rs_buffer := rs_buffer s @ d2 @ [CHR 0x0A]\<rparr>" for s
    using assms(7) assms(8) nd by (simp add: processLine_def Let_def)
  have e: "st\<lparr>rs_buffer := []\<rparr> = st" using assms(9) by simp
  have first: "readChunk parse st (data_line d1) = st\<lparr>rs_buffer := data_line d1 @ [CHR 0x0A]\<rparr>"
    unfolding readChunk_def e assms(9)
    using split_lines_single [OF data_line_no_newline [OF assms(3)]]
    by (simp add: held assms(9))
  have "split_lines (d2 @ CHR 0x0A # [CHR 0x0A]) = d2 # split_lines [CHR 0x0A]"
    by (rule split_lines_line [OF assms(6)])
  then have l2: "split_lines (d2 @ [CHR 0x0A, CHR 0x0A]) = [d2, [], []]" by simp
  have "split_lines (data_line d1 @ CHR 0x0A # (d2 @ [CHR 0x0A, CHR 0x0A]))
      = data_line d1 # split_lines (d2 @ [CHR 0x0A, CHR 0x0A])"
    by (rule split_lines_line [OF data_line_no_newline [OF assms(3)]])
  then have lines: "split_lines (data_line d1 @ CHR 0x0A # d2 @ [CHR 0x0A, CHR 0x0A])
      = [data_line d1, d2, [], []]"
    by (simp only: l2)
  show ?thesis
    unfolding first
    by (simp add: readChunk_def lines held kept processLine_empty)
qed

text \<open>
  C2 does not hold of the code. A line whose payload does not parse is put back into the
  buffer followed by a line feed, so the next chunk does not continue the line: the two
  fragments are split into two lines again on every later read, the first never parses
  and the second is not a data line. Here a delta record is cut inside its payload and
  followed by the done-marker; its text \<open>He\<close> is missing from the result.
\<close>

theorem split_payload_is_dropped:
  assumes "parse ''{\"type\":\"transcript.text.delta\",\"del'' = None"
  shows "readTranscriptionStream parse
     (Some [''data: {\"type\":\"transcript.text.delta\",\"del'',
            ''ta\":\"He\"}\<newline>\<newline>data: [DONE]\<newline>\<newline>''])
     = Inr []"
  using assms
  by (simp add: readTranscriptionStream_def readChunk_def processLine_def handleData_def
      streamResult_def trim_def is_ws_def slice_def)

text \<open>With \<open>JSON.parse\<close> on these texts: the cut record is lost, the whole record is read.\<close>

theorem split_payload_is_dropped_witness:
  "readTranscriptionStream parse_examples
     (Some [''data: {\"type\":\"transcript.text.delta\",\"del'',
            ''ta\":\"He\"}\<newline>\<newline>data: [DONE]\<newline>\<newline>''])
     = Inr []
   \<and> readTranscriptionStream parse_examples
     (Some [''data: {\"type\":\"transcript.text.delta\",\"delta\":\"He\"}\<newline>\<newline>data: [DONE]\<newline>\<newline>''])
     = Inr ''He''"
proof -
  have n: "parse_examples ''{\"type\":\"transcript.text.delta\",\"del'' = None"
    by (simp add: parse_examples_def)
  have whole: "readTranscriptionStream parse_examples
     (Some [''data: {\"type\":\"transcript.text.delta\",\"delta\":\"He\"}\<newline>\<newline>data: [DONE]\<newline>\<newline>''])
     = Inr ''He''"
    by (simp add: readTranscriptionStream_def readChunk_def processLine_def handleData_def
      handleEvent_def str_field_def item_or_def parse_examples_def
      streamResult_def trim_def is_ws_def slice_def)
  from split_payload_is_dropped [of parse_examples, OF n] whole show ?thesis by (rule conjI)
qed


subsection \<open>The stop gate\<close>

text \<open>No method of the dispatcher or of the caches writes a field of the detector.\<close>

lemma vf_getAPIKey: "getAPIKey w m = (r, m') \<Longrightarrow> vad_fields m' = vad_fields m"
  by (auto simp: getAPIKey_def vad_fields_def Let_def split: if_splits sum.splits)

lemma vf_getTranscriptionEndpoint:
  "getTranscriptionEndpoint w m = (r, m') \<Longrightarrow> vad_fields m' = vad_fields m"
  by (auto simp: getTranscriptionEndpoint_def vad_fields_def Let_def split: if_splits)

lemma vf_isReasoningAvailable:
  "isReasoningAvailable w m = (r, m') \<Longrightarrow> vad_fields m' = vad_fields m"
  by (auto simp: isReasoningAvailable_def vad_fields_def Let_def split: if_splits sum.splits)

lemma vf_processTranscription:
  "processTranscription w m raw src = (r, m') \<Longrightarrow> vad_fields m' = vad_fields m"
  by (auto simp: processTranscription_def Let_def split: if_splits prod.splits sum.splits
      dest: vf_isReasoningAvailable)

lemma vf_cloudTry: "cloudTry w m = (r, m') \<Longrightarrow> vad_fields m' = vad_fields m"
  by (auto simp: cloudTry_def split: if_splits prod.splits sum.splits
      dest!: vf_getAPIKey vf_getTranscriptionEndpoint vf_isReasoningAvailable
        vf_processTranscription)

lemma vf_processWithOpenAIAPI:
  "processWithOpenAIAPI w m = (r, m', sigs) \<Longrightarrow> vad_fields m' = vad_fields m"
  by (auto simp: processWithOpenAIAPI_def Let_def split: if_splits prod.splits sum.splits
      dest!: vf_cloudTry vf_processTranscription)

lemma vf_localTry:
  "localTry w m answer src dm = (r, m') \<Longrightarrow> vad_fields m' = vad_fields m"
  by (auto simp: localTry_def split: if_splits prod.splits sum.splits
      dest!: vf_processTranscription)

lemma vf_localCatch:
  "localCatch w m e answer src dm name = (r, m', sigs) \<Longrightarrow> vad_fields m' = vad_fields m"
  by (auto simp: localCatch_def Let_def split: if_splits prod.splits sum.splits
      dest!: vf_localTry vf_processWithOpenAIAPI)

lemma vf_dispatch: "dispatch w m = (r, m', sigs) \<Longrightarrow> vad_fields m' = vad_fields m"
  by (auto simp: dispatch_def processWithLocalWhisper_def processWithLocalParakeet_def Let_def
      split: if_splits dest!: vf_localCatch vf_processWithOpenAIAPI)

lemma vf_processAudio: "processAudio w m = (m', sigs) \<Longrightarrow> vad_fields m' = vad_fields m"
  by (auto simp: processAudio_def vad_fields_def split: prod.splits sum.splits
      dest!: vf_dispatch)

lemma vf_onstop: "onstop w m = (m', sigs) \<Longrightarrow> vad_fields m' = vad_fields m"
  by (auto simp: onstop_def stopVADMonitoring_def Let_def vad_fields_def
      split: if_splits prod.splits dest!: vf_processAudio)


text \<open>
  The fields of the detector stay consistent in every manager the class can be in: a tick
  raises the peak to the level that sets the flag, and nothing else writes them.
\<close>

lemma vad_consistent_fields:
  "vad_fields m' = vad_fields m \<Longrightarrow> vad_consistent m' = vad_consistent m"
  by (simp add: vad_fields_def vad_consistent_def)

lemma hasValidAudioContent_fields:
  "vad_fields m' = vad_fields m \<Longrightarrow> hasValidAudioContent m' = hasValidAudioContent m"
  by (simp add: vad_fields_def hasValidAudioContent_def)

lemma vad_consistent_new: "vad_consistent new_manager"
  by (simp add: vad_consistent_def new_manager_def)

text \<open>What a tick does to the three fields, in terms of the smoothed level it computes.\<close>

lemma tick_level:
  "currentAudioLevel (fst (vad_tick now d m))
     = dadd (dmul (currentAudioLevel m) (round_double 0.7))
            (dmul (rms_level d) (round_double 0.3))"
  by (simp add: vad_tick_def Let_def)

lemma tick_peak:
  "peakAudioLevel (fst (vad_tick now d m))
     = (if dless (peakAudioLevel m) (currentAudioLevel (fst (vad_tick now d m)))
        then currentAudioLevel (fst (vad_tick now d m)) else peakAudioLevel m)"
  by (simp add: vad_tick_def Let_def)

lemma tick_voice:
  "voiceDetected (fst (vad_tick now d m))
     = (voiceDetected m \<or> dless VOICE_THRESHOLD (currentAudioLevel (fst (vad_tick now d m))))"
  by (simp add: vad_tick_def Let_def)

lemma tick_duration:
  "speechDuration (fst (vad_tick now d m))
     = (if dless VOICE_THRESHOLD (currentAudioLevel (fst (vad_tick now d m)))
        then dadd (speechDuration m) (ddiv ANALYSIS_INTERVAL (Finite 1000))
        else speechDuration m)"
  by (simp add: vad_tick_def Let_def)

lemma vad_consistent_tick:
  assumes "vad_consistent m"
  shows "vad_consistent (fst (vad_tick now d m))"
proof -
  let ?c = "currentAudioLevel (fst (vad_tick now d m))"
  let ?p = "peakAudioLevel (fst (vad_tick now d m))"
  from assms have p: "peakAudioLevel m \<noteq> NaN" and s: "speechDuration m \<noteq> NaN"
    and v: "voiceDetected m \<Longrightarrow> dless VOICE_THRESHOLD (peakAudioLevel m)"
    by (simp_all add: vad_consistent_def)
  have peak: "?p \<noteq> NaN"
  proof (cases "dless (peakAudioLevel m) ?c")
    case True
    then have "?c \<noteq> NaN" using dless_not_NaN by blast
    with True show ?thesis by (simp add: tick_peak)
  next
    case False
    with p show ?thesis by (simp add: tick_peak)
  qed
  have duration: "speechDuration (fst (vad_tick now d m)) \<noteq> NaN"
    unfolding tick_duration VAD_CONFIG_values using s by (simp add: dadd_Finite_not_NaN)
  have above: "dless VOICE_THRESHOLD ?p" if "voiceDetected (fst (vad_tick now d m))"
  proof (cases "dless (peakAudioLevel m) ?c")
    case True
    then have e: "?p = ?c" by (simp add: tick_peak)
    from that have "voiceDetected m \<or> dless VOICE_THRESHOLD ?c" by (simp add: tick_voice)
    then show ?thesis
    proof
      assume "voiceDetected m"
      from dless_trans [OF v [OF this] True] show ?thesis by (simp only: e)
    next
      assume "dless VOICE_THRESHOLD ?c"
      then show ?thesis by (simp only: e)
    qed
  next
    case False
    then have e: "?p = peakAudioLevel m" by (simp add: tick_peak)
    from that have "voiceDetected m \<or> dless VOICE_THRESHOLD ?c" by (simp add: tick_voice)
    then show ?thesis
    proof
      assume "voiceDetected m"
      from v [OF this] show ?thesis by (simp only: e)
    next
      assume t: "dless VOICE_THRESHOLD ?c"
      then have "?c \<noteq> NaN" using dless_not_NaN by blast
      with p False have "dle ?c (peakAudioLevel m)" by (simp add: not_dless_iff_dle)
      from dless_dle_trans [OF t this] show ?thesis by (simp only: e)
    qed
  qed
  from peak duration above show ?thesis by (simp add: vad_consistent_def)
qed

lemma vad_consistent_startVADMonitoring:
  "vad_consistent m \<Longrightarrow> vad_consistent (startVADMonitoring ok m)"
  by (simp add: vad_consistent_def startVADMonitoring_def)

lemma vad_fields_startRecording:
  "vad_fields (fst (snd (startRecording w acq m)))
     = (if fst (startRecording w acq m)
        then vad_fields (startVADMonitoring (acq = Stream True) m) else vad_fields m)"
proof (cases acq)
  case (Stream ok)
  then show ?thesis
    by (cases ok) (simp_all add: startRecording_def vad_fields_def startVADMonitoring_def)
next
  case (Refused name message)
  then show ?thesis by (simp add: startRecording_def)
qed

lemma vad_consistent_startRecording:
  assumes "vad_consistent m"
  shows "vad_consistent (fst (snd (startRecording w acq m)))"
proof (cases "fst (startRecording w acq m)")
  case True
  then have e: "vad_fields (fst (snd (startRecording w acq m)))
      = vad_fields (startVADMonitoring (acq = Stream True) m)"
    by (simp only: vad_fields_startRecording if_True)
  show ?thesis
    using vad_consistent_startVADMonitoring [OF assms]
    by (simp only: vad_consistent_fields [OF e])
next
  case False
  then have e: "vad_fields (fst (snd (startRecording w acq m))) = vad_fields m"
    by (simp only: vad_fields_startRecording if_False)
  show ?thesis using assms by (simp only: vad_consistent_fields [OF e])
qed

lemma vad_fields_stopRecording: "vad_fields (snd (stopRecording m)) = vad_fields m"
  by (simp add: stopRecording_def vad_fields_def)

lemma vad_fields_cancelRecording: "vad_fields (fst (snd (cancelRecording m))) = vad_fields m"
  by (simp add: cancelRecording_def stopVADMonitoring_def vad_fields_def)

lemma vad_fields_cancel_onstop: "vad_fields (fst (cancel_onstop m)) = vad_fields m"
  by (simp add: cancel_onstop_def vad_fields_def)

lemma vad_fields_onstop: "vad_fields (fst (onstop w m)) = vad_fields m"
  by (rule vf_onstop [of w m _ "snd (onstop w m)"]) simp

lemma reachable_vad_consistent: "reachable m \<Longrightarrow> vad_consistent m"
proof (induction rule: reachable.induct)
  case reachable_new
  show ?case by (rule vad_consistent_new)
next
  case (reachable_start m w acq)
  from reachable_start.IH show ?case by (rule vad_consistent_startRecording)
next
  case (reachable_tick m now dataArray)
  from reachable_tick.IH show ?case by (rule vad_consistent_tick)
next
  case (reachable_stop m)
  from reachable_stop.IH show ?case by (simp only: vad_consistent_fields [OF vad_fields_stopRecording])
next
  case (reachable_onstop m w)
  from reachable_onstop.IH show ?case by (simp only: vad_consistent_fields [OF vad_fields_onstop])
next
  case (reachable_cancel m)
  from reachable_cancel.IH show ?case by (simp only: vad_consistent_fields [OF vad_fields_cancelRecording])
next
  case (reachable_cancel_onstop m)
  from reachable_cancel_onstop.IH show ?case by (simp only: vad_consistent_fields [OF vad_fields_cancel_onstop])
qed

lemma reachable_vad_run: "reachable m \<Longrightarrow> reachable (vad_run ticks m)"
proof (induction ticks rule: rev_induct)
  case Nil
  then show ?case by (simp add: vad_run_Nil)
next
  case (snoc t ticks)
  then show ?case by (simp add: vad_run_snoc reachable_tick)
qed

lemma gate_is_hasValidAudioContent:
  assumes "vad_consistent m"
  shows "(\<not> voiceDetected m \<or> dless (speechDuration m) MIN_SPEECH_DURATION)
         = (\<not> hasValidAudioContent m)"
proof -
  from assms have "speechDuration m \<noteq> NaN" by (simp add: vad_consistent_def)
  then have "(\<not> dless (speechDuration m) MIN_SPEECH_DURATION)
      = dle MIN_SPEECH_DURATION (speechDuration m)"
    by (simp add: not_dless_iff_dle VAD_CONFIG_values)
  with assms show ?thesis
    by (auto simp: vad_consistent_def hasValidAudioContent_def split: if_splits)
qed


text \<open>Every run of the pipeline calls an engine and never fires the no-audio signal.\<close>

lemma signals_processWithOpenAIAPI:
  "processWithOpenAIAPI w m = (r, m', sigs) \<Longrightarrow>
   EngineCalled CloudAPI \<in> set sigs \<and> NoAudioDetected \<notin> set sigs"
  by (auto simp: processWithOpenAIAPI_def Let_def split: if_splits prod.splits sum.splits)

lemma signals_localCatch:
  "localCatch w m e answer src dm name = (r, m', sigs) \<Longrightarrow>
   EngineCalled e \<in> set sigs \<and> NoAudioDetected \<notin> set sigs"
  by (auto simp: localCatch_def Let_def split: if_splits prod.splits sum.splits
      dest: signals_processWithOpenAIAPI)

lemma signals_dispatch:
  "dispatch w m = (r, m', sigs) \<Longrightarrow>
   (\<exists>e. EngineCalled e \<in> set sigs) \<and> NoAudioDetected \<notin> set sigs"
  by (auto simp: dispatch_def processWithLocalWhisper_def processWithLocalParakeet_def Let_def
      split: if_splits dest: signals_localCatch signals_processWithOpenAIAPI)

lemma signals_processAudio:
  "processAudio w m = (m', sigs) \<Longrightarrow>
   (\<exists>e. EngineCalled e \<in> set sigs) \<and> NoAudioDetected \<notin> set sigs"
  by (auto simp: processAudio_def split: prod.splits sum.splits if_splits
      dest!: signals_dispatch)

text \<open>
  C1. \<open>hasValidAudioContent\<close> is true exactly when \<open>voiceDetected\<close> holds, \<open>speechDuration\<close>
  is at least 0.5 and the peak is above 0.04 (the double of that literal). For every
  manager the class can be in when the recorder has stopped, the handler decides as this
  predicate does (the handler tests the first two conditions; the third follows from the
  first): when it is true the first signal is the state change to Processing and the
  pipeline runs (an engine is called, the no-audio signal is not fired); when it is false
  the handler fires the state change to Idle and the no-audio signal, releases the tracks,
  calls no engine and leaves the manager Idle.
\<close>

theorem stop_gate:
  assumes "reachable m"
  shows "(hasValidAudioContent m
            = (voiceDetected m \<and> dle (Finite 0.5) (speechDuration m)
               \<and> dless (round_double 0.04) (peakAudioLevel m)))
       \<and> (hasValidAudioContent m \<longrightarrow>
            hd (snd (onstop w m)) = StateChange False True
            \<and> (\<exists>e. EngineCalled e \<in> set (snd (onstop w m)))
            \<and> NoAudioDetected \<notin> set (snd (onstop w m)))
       \<and> (\<not> hasValidAudioContent m \<longrightarrow>
            snd (onstop w m) = [StateChange False False, NoAudioDetected, TracksStopped]
            \<and> \<not> isRecording (fst (onstop w m)) \<and> \<not> isProcessing (fst (onstop w m)))"
proof (intro conjI impI)
  show "hasValidAudioContent m
      = (voiceDetected m \<and> dle (Finite 0.5) (speechDuration m)
         \<and> dless (round_double 0.04) (peakAudioLevel m))"
    by (simp add: hasValidAudioContent_def MIN_SPEECH_DURATION_def VOICE_THRESHOLD_def
        decimal_literals)
next
  assume v: "hasValidAudioContent m"
  from assms have c: "vad_consistent m" by (rule reachable_vad_consistent)
  let ?m = "m\<lparr>isRecording := False, recordingStartTime := None, isProcessing := True\<rparr>"
  obtain m3 sigs where pa: "processAudio w ?m = (m3, sigs)" by (cases "processAudio w ?m")
  from v gate_is_hasValidAudioContent [OF c]
  have g: "\<not> (\<not> voiceDetected m \<or> dless (speechDuration m) MIN_SPEECH_DURATION)" by simp
  then have o: "snd (onstop w m) = StateChange False True # sigs @ [TracksStopped]"
    using pa by (simp add: onstop_def stopVADMonitoring_def Let_def)
  from signals_processAudio [OF pa]
  have s: "(\<exists>e. EngineCalled e \<in> set sigs) \<and> NoAudioDetected \<notin> set sigs" .
  show "hd (snd (onstop w m)) = StateChange False True" by (simp add: o)
  from s show "\<exists>e. EngineCalled e \<in> set (snd (onstop w m))" by (auto simp: o)
  from s show "NoAudioDetected \<notin> set (snd (onstop w m))" by (simp add: o)
next
  assume v: "\<not> hasValidAudioContent m"
  from assms have c: "vad_consistent m" by (rule reachable_vad_consistent)
  from v gate_is_hasValidAudioContent [OF c]
  have g: "\<not> voiceDetected m \<or> dless (speechDuration m) MIN_SPEECH_DURATION" by simp
  then show "snd (onstop w m) = [StateChange False False, NoAudioDetected, TracksStopped]"
    by (auto simp: onstop_def stopVADMonitoring_def Let_def)
  from g show "\<not> isRecording (fst (onstop w m))"
    by (auto simp: onstop_def stopVADMonitoring_def Let_def)
  from g show "\<not> isProcessing (fst (onstop w m))"
    by (auto simp: onstop_def stopVADMonitoring_def Let_def)
qed

text \<open>
  Ten loud ticks add \<open>50 / 1000\<close> ten times, which in doubles is
  \<open>0.49999999999999994\<close>: the session does not pass the gate. With an eleventh tick it
  does.
\<close>

lemma replicate_10: "replicate 10 x = [x, x, x, x, x, x, x, x, x, x]"
  by (simp add: numeral_eq_Suc)

lemma replicate_11: "replicate 11 x = [x, x, x, x, x, x, x, x, x, x, x]"
  by (simp add: numeral_eq_Suc)

theorem stop_gate_witness:
  "speechDuration
     (vad_run (replicate 10 (0, [255, 255]))
        (fst (snd (startRecording blank_world (Stream True) new_manager))))
     = Finite (9007199254740991 / 18014398509481984)
   \<and> \<not> hasValidAudioContent
     (vad_run (replicate 10 (0, [255, 255]))
        (fst (snd (startRecording blank_world (Stream True) new_manager))))
   \<and> snd (onstop blank_world
        (vad_run (replicate 10 (0, [255, 255]))
           (fst (snd (startRecording blank_world (Stream True) new_manager)))))
      = [StateChange False False, NoAudioDetected, TracksStopped]
   \<and> speechDuration
     (vad_run (replicate 11 (0, [255, 255]))
        (fst (snd (startRecording blank_world (Stream True) new_manager))))
     = Finite (4953959590107545 / 9007199254740992)
   \<and> hasValidAudioContent
     (vad_run (replicate 11 (0, [255, 255]))
        (fst (snd (startRecording blank_world (Stream True) new_manager))))
   \<and> hd (snd (onstop blank_world
        (vad_run (replicate 11 (0, [255, 255]))
           (fst (snd (startRecording blank_world (Stream True) new_manager))))))
      = StateChange False True"
proof -
  let ?start = "fst (snd (startRecording blank_world (Stream True) new_manager))"
  let ?m0 = "?start"
  let ?m1 = "fst (vad_tick 0 [255, 255] ?m0)"
  let ?m2 = "fst (vad_tick 0 [255, 255] ?m1)"
  let ?m3 = "fst (vad_tick 0 [255, 255] ?m2)"
  let ?m4 = "fst (vad_tick 0 [255, 255] ?m3)"
  let ?m5 = "fst (vad_tick 0 [255, 255] ?m4)"
  let ?m6 = "fst (vad_tick 0 [255, 255] ?m5)"
  let ?m7 = "fst (vad_tick 0 [255, 255] ?m6)"
  let ?m8 = "fst (vad_tick 0 [255, 255] ?m7)"
  let ?m9 = "fst (vad_tick 0 [255, 255] ?m8)"
  let ?m10 = "fst (vad_tick 0 [255, 255] ?m9)"
  let ?m11 = "fst (vad_tick 0 [255, 255] ?m10)"
  note eval = rms_level_examples VAD_CONFIG_values decimal_literals double_eval
  have l0: "currentAudioLevel ?m0 = Finite 0"
    by (simp add: startRecording_def startVADMonitoring_def new_manager_def)
  have s0: "peakAudioLevel ?m0 = Finite 0" "speechDuration ?m0 = Finite 0"
    by (simp_all add: startRecording_def startVADMonitoring_def new_manager_def)
  have l1: "currentAudioLevel ?m1 = Finite (5404319552844595 / 18014398509481984)"
    by (simp add: tick_level [of 0 "[255, 255]" ?m0] l0 eval)
  have s1: "peakAudioLevel ?m1 = Finite (5404319552844595 / 18014398509481984)"
      "voiceDetected ?m1"
      "speechDuration ?m1 = Finite (3602879701896397 / 72057594037927936)"
    by (simp_all add: tick_peak [of 0 "[255, 255]" ?m0] tick_voice [of 0 "[255, 255]" ?m0]
        tick_duration [of 0 "[255, 255]" ?m0] l1 s0 eval)
  have l2: "currentAudioLevel ?m2 = Finite (2296835809958953 / 4503599627370496)"
    by (simp add: tick_level [of 0 "[255, 255]" ?m1] l1 eval)
  have s2: "peakAudioLevel ?m2 = Finite (2296835809958953 / 4503599627370496)"
      "voiceDetected ?m2"
      "speechDuration ?m2 = Finite (3602879701896397 / 36028797018963968)"
    by (simp_all add: tick_peak [of 0 "[255, 255]" ?m1] tick_voice [of 0 "[255, 255]" ?m1]
        tick_duration [of 0 "[255, 255]" ?m1] l2 s1 eval)
  have l3: "currentAudioLevel ?m3 = Finite (184929059698901 / 281474976710656)"
    by (simp add: tick_level [of 0 "[255, 255]" ?m2] l2 eval)
  have s3: "peakAudioLevel ?m3 = Finite (184929059698901 / 281474976710656)"
      "voiceDetected ?m3"
      "speechDuration ?m3 = Finite (1351079888211149 / 9007199254740992)"
    by (simp_all add: tick_peak [of 0 "[255, 255]" ?m2] tick_voice [of 0 "[255, 255]" ?m2]
        tick_duration [of 0 "[255, 255]" ?m2] l3 s2 eval)
  have l4: "currentAudioLevel ?m4 = Finite (427785669604855 / 562949953421312)"
    by (simp add: tick_level [of 0 "[255, 255]" ?m3] l3 eval)
  have s4: "peakAudioLevel ?m4 = Finite (427785669604855 / 562949953421312)"
      "voiceDetected ?m4"
      "speechDuration ?m4 = Finite (3602879701896397 / 18014398509481984)"
    by (simp_all add: tick_peak [of 0 "[255, 255]" ?m3] tick_voice [of 0 "[255, 255]" ?m3]
        tick_duration [of 0 "[255, 255]" ?m3] l4 s3 eval)
  have l5: "currentAudioLevel ?m5 = Finite (3746679637998337 / 4503599627370496)"
    by (simp add: tick_level [of 0 "[255, 255]" ?m4] l4 eval)
  have s5: "peakAudioLevel ?m5 = Finite (3746679637998337 / 4503599627370496)"
      "voiceDetected ?m5"
      "speechDuration ?m5 = Finite (1 / 4)"
    by (simp_all add: tick_peak [of 0 "[255, 255]" ?m4] tick_voice [of 0 "[255, 255]" ?m4]
        tick_duration [of 0 "[255, 255]" ?m4] l5 s4 eval)
  have l6: "currentAudioLevel ?m6 = Finite (31044965896953 / 35184372088832)"
    by (simp add: tick_level [of 0 "[255, 255]" ?m5] l5 eval)
  have s6: "peakAudioLevel ?m6 = Finite (31044965896953 / 35184372088832)"
      "voiceDetected ?m6"
      "speechDuration ?m6 = Finite (5404319552844595 / 18014398509481984)"
    by (simp_all add: tick_peak [of 0 "[255, 255]" ?m5] tick_voice [of 0 "[255, 255]" ?m5]
        tick_duration [of 0 "[255, 255]" ?m5] l6 s5 eval)
  have l7: "currentAudioLevel ?m7 = Finite (4132708832578137 / 4503599627370496)"
    by (simp add: tick_level [of 0 "[255, 255]" ?m6] l6 eval)
  have s7: "peakAudioLevel ?m7 = Finite (4132708832578137 / 4503599627370496)"
      "voiceDetected ?m7"
      "speechDuration ?m7 = Finite (3152519739159347 / 9007199254740992)"
    by (simp_all add: tick_peak [of 0 "[255, 255]" ?m6] tick_voice [of 0 "[255, 255]" ?m6]
        tick_duration [of 0 "[255, 255]" ?m6] l7 s6 eval)
  have l8: "currentAudioLevel ?m8 = Finite (1060994017753961 / 1125899906842624)"
    by (simp add: tick_level [of 0 "[255, 255]" ?m7] l7 eval)
  have s8: "peakAudioLevel ?m8 = Finite (1060994017753961 / 1125899906842624)"
      "voiceDetected ?m8"
      "speechDuration ?m8 = Finite (7205759403792793 / 18014398509481984)"
    by (simp_all add: tick_peak [of 0 "[255, 255]" ?m7] tick_voice [of 0 "[255, 255]" ?m7]
        tick_duration [of 0 "[255, 255]" ?m7] l8 s7 eval)
  have l9: "currentAudioLevel ?m9 = Finite (4321863137922239 / 4503599627370496)"
    by (simp add: tick_level [of 0 "[255, 255]" ?m8] l8 eval)
  have s9: "peakAudioLevel ?m9 = Finite (4321863137922239 / 4503599627370496)"
      "voiceDetected ?m9"
      "speechDuration ?m9 = Finite (2026619832316723 / 4503599627370496)"
    by (simp_all add: tick_peak [of 0 "[255, 255]" ?m8] tick_voice [of 0 "[255, 255]" ?m8]
        tick_duration [of 0 "[255, 255]" ?m8] l9 s8 eval)
  have l10: "currentAudioLevel ?m10 = Finite (1094096021189179 / 1125899906842624)"
    by (simp add: tick_level [of 0 "[255, 255]" ?m9] l9 eval)
  have s10: "peakAudioLevel ?m10 = Finite (1094096021189179 / 1125899906842624)"
      "voiceDetected ?m10"
      "speechDuration ?m10 = Finite (9007199254740991 / 18014398509481984)"
    by (simp_all add: tick_peak [of 0 "[255, 255]" ?m9] tick_voice [of 0 "[255, 255]" ?m9]
        tick_duration [of 0 "[255, 255]" ?m9] l10 s9 eval)
  have l11: "currentAudioLevel ?m11 = Finite (2207274373770425 / 2251799813685248)"
    by (simp add: tick_level [of 0 "[255, 255]" ?m10] l10 eval)
  have s11: "peakAudioLevel ?m11 = Finite (2207274373770425 / 2251799813685248)"
      "voiceDetected ?m11"
      "speechDuration ?m11 = Finite (4953959590107545 / 9007199254740992)"
    by (simp_all add: tick_peak [of 0 "[255, 255]" ?m10] tick_voice [of 0 "[255, 255]" ?m10]
        tick_duration [of 0 "[255, 255]" ?m10] l11 s10 eval)
  let ?ten = "vad_run (replicate 10 (0, [255, 255])) ?start"
  let ?eleven = "vad_run (replicate 11 (0, [255, 255])) ?start"
  have ten: "?ten = ?m10"
    by (simp add: replicate_10 vad_run_def)
  have eleven: "?eleven = ?m11"
    by (simp add: replicate_11 vad_run_def)
  have r: "reachable ?start" by (rule reachable_start [OF reachable_new])
  have r10: "reachable ?ten" by (rule reachable_vad_run [OF r])
  have r11: "reachable ?eleven" by (rule reachable_vad_run [OF r])
  have d10: "speechDuration ?ten = Finite (9007199254740991 / 18014398509481984)"
    unfolding ten by (rule s10)
  have d11: "speechDuration ?eleven = Finite (4953959590107545 / 9007199254740992)"
    unfolding eleven by (rule s11)
  have v10: "\<not> hasValidAudioContent ?ten"
    unfolding ten hasValidAudioContent_def by (simp add: s10 VAD_CONFIG_values)
  have v11: "hasValidAudioContent ?eleven"
    unfolding eleven hasValidAudioContent_def by (simp add: s11 VAD_CONFIG_values)
  from stop_gate [OF r10, of blank_world] v10
  have a: "snd (onstop blank_world ?ten)
      = [StateChange False False, NoAudioDetected, TracksStopped]" by blast
  from stop_gate [OF r11, of blank_world] v11
  have b: "hd (snd (onstop blank_world ?eleven)) = StateChange False True" by blast
  from d10 v10 a d11 v11 b show ?thesis by blast
qed

subsection \<open>Fallback between the backends\<close>

text \<open>
  From a local engine to the cloud: when the local attempt fails with \<open>X\<close> (not the
  no-audio signal), the cloud fallback is enabled in local mode and fails with \<open>Y\<close>, the
  error raised cites both.
\<close>

lemma includes_str_prefix: "startsWith (s @ b) s"
  by (induction s) simp_all

lemma includes_str_append: "includes_str (a @ s @ b) s"
proof (induction a)
  case Nil
  show ?case
  proof (cases "s @ b")
    case Nil
    then show ?thesis by simp
  next
    case (Cons c cs)
    have "startsWith (s @ b) s" by (rule includes_str_prefix)
    with Cons show ?thesis by simp
  qed
next
  case (Cons c a)
  then show ?case by simp
qed

lemma local_then_cloud_failure_cites_both:
  assumes "localTry w m answer src dm = (Inl X, m1)"
    and "X \<noteq> ''No audio detected''"
    and "localStorage w ''allowOpenAIFallback'' = Some ''true''"
    and "localStorage w ''useLocalWhisper'' = Some ''true''"
    and "processWithOpenAIAPI w m1 = (Inl Y, m2, sigs)"
  shows "fst (localCatch w m e answer src dm name)
           = Inl (name @ '' failed: '' @ X @ ''. OpenAI fallback also failed: '' @ Y)"
    and "includes_str (name @ '' failed: '' @ X @ ''. OpenAI fallback also failed: '' @ Y) X"
    and "includes_str (name @ '' failed: '' @ X @ ''. OpenAI fallback also failed: '' @ Y) Y"
proof -
  from assms show "fst (localCatch w m e answer src dm name)
           = Inl (name @ '' failed: '' @ X @ ''. OpenAI fallback also failed: '' @ Y)"
    by (simp add: localCatch_def)
  show "includes_str (name @ '' failed: '' @ X @ ''. OpenAI fallback also failed: '' @ Y) X"
    using includes_str_append [of "name @ '' failed: ''" X "''. OpenAI fallback also failed: '' @ Y"]
    by simp
  show "includes_str (name @ '' failed: '' @ X @ ''. OpenAI fallback also failed: '' @ Y) Y"
    using includes_str_append [of "name @ '' failed: '' @ X @ ''. OpenAI fallback also failed: ''" Y "[]"]
    by simp
qed

text \<open>
  C4 does not hold of the code in the other direction. When the cloud attempt fails with
  \<open>X\<close>, the local fallback is enabled in cloud mode, and the local engine answers with a
  failure (whatever its message \<open>Y\<close>), the inner \<open>try\<close> ends in \<open>throw error\<close>: the error
  of the cloud attempt is thrown to the inner \<open>catch\<close>, and the error raised cites \<open>X\<close>
  twice and \<open>Y\<close> nowhere.
\<close>

theorem cloud_then_local_failure_repeats_cloud_message:
  assumes "cloudTry w m = (Inl X, m1)"
    and "localStorage w ''allowLocalFallback'' = Some ''true''"
    and "localStorage w ''useLocalWhisper'' \<noteq> Some ''true''"
    and "transcribeLocalWhisper w (item_or (localStorage w ''fallbackWhisperModel'') ''base'')
           = Inr result"
    and "\<not> (r_success result = Some True \<and> truthy (r_text result))"
  shows "fst (processWithOpenAIAPI w m)
           = Inl (''OpenAI API failed: '' @ X @ ''. Local fallback also failed: '' @ X)"
  using assms by (auto simp: processWithOpenAIAPI_def Let_def)

text \<open>
  The server answers 503 and the local engine reports a missing model file: the message
  raised does not contain the engine's message.
\<close>

lemma cloudTry_exchange_fails:
  assumes "fst (getAPIKey w m) = Inr k" and "\<And>endpoint. cloudExchange w endpoint k = Inl X"
  shows "fst (cloudTry w m) = Inl X"
  using assms by (auto simp: cloudTry_def split: prod.splits sum.splits)

theorem cloud_then_local_failure_repeats_cloud_message_witness:
  "fst (processWithOpenAIAPI
          (blank_world\<lparr>localStorage := [''allowLocalFallback'' \<mapsto> ''true''],
                        getOpenAIKey := Inr (Some ''sk-live''),
                        cloudExchange := (\<lambda>endpoint apiKey. Inl ''API Error: 503 busy''),
                        transcribeLocalWhisper := (\<lambda>model.
                          Inr \<lparr> r_success = Some False, r_text = None,
                                r_message = Some ''model file missing'', r_error = None \<rparr>)\<rparr>)
          new_manager)
     = Inl ''OpenAI API failed: API Error: 503 busy. Local fallback also failed: API Error: 503 busy''
   \<and> \<not> includes_str
          ''OpenAI API failed: API Error: 503 busy. Local fallback also failed: API Error: 503 busy''
          ''model file missing''"
proof -
  let ?w = "blank_world\<lparr>localStorage := [''allowLocalFallback'' \<mapsto> ''true''],
                        getOpenAIKey := Inr (Some ''sk-live''),
                        cloudExchange := (\<lambda>endpoint apiKey. Inl ''API Error: 503 busy''),
                        transcribeLocalWhisper := (\<lambda>model.
                          Inr \<lparr> r_success = Some False, r_text = None,
                                r_message = Some ''model file missing'', r_error = None \<rparr>)\<rparr>"
  let ?r = "\<lparr> r_success = Some False, r_text = None,
             r_message = Some ''model file missing'', r_error = None \<rparr>"
  have k: "fst (getAPIKey ?w new_manager) = Inr (Some ''sk-live'')"
    by (simp add: getAPIKey_def retrieveApiKey_def cloudProvider_def item_or_def blank_world_def
        new_manager_def isValidApiKey_def trim_def is_ws_def PLACEHOLDER_KEYS_def)
  have "fst (cloudTry ?w new_manager) = Inl ''API Error: 503 busy''"
    by (rule cloudTry_exchange_fails [OF k]) simp
  then have c: "cloudTry ?w new_manager = (Inl ''API Error: 503 busy'', snd (cloudTry ?w new_manager))"
    by (simp add: prod_eq_iff)
  have a1: "localStorage ?w ''allowLocalFallback'' = Some ''true''" by (simp add: blank_world_def)
  have a2: "localStorage ?w ''useLocalWhisper'' \<noteq> Some ''true''" by (simp add: blank_world_def)
  have a3: "transcribeLocalWhisper ?w (item_or (localStorage ?w ''fallbackWhisperModel'') ''base'')
      = Inr ?r" by simp
  have a4: "\<not> (r_success ?r = Some True \<and> truthy (r_text ?r))" by simp
  have m: "fst (processWithOpenAIAPI ?w new_manager)
      = Inl (''OpenAI API failed: '' @ ''API Error: 503 busy''
             @ ''. Local fallback also failed: '' @ ''API Error: 503 busy'')"
    by (rule cloud_then_local_failure_repeats_cloud_message [OF c a1 a2 a3 a4])
  have n: "\<not> includes_str
          ''OpenAI API failed: API Error: 503 busy. Local fallback also failed: API Error: 503 busy''
          ''model file missing''"
    by simp
  from m n show ?thesis by simp
qed

text \<open>
  The no-audio answer of a local engine that runs as the selected engine. When the engine
  answers \<open>{success: false, message: "No audio detected"}\<close>, the method of that engine
  raises exactly the error \<open>No audio detected\<close>, leaves the manager as it is and calls no
  other engine, whatever the fallback settings; and when the dispatcher's outcome is that
  error, \<open>processAudio\<close> adds the state change to Idle and nothing else to the signals: no
  error signal and no completion.
\<close>

lemma selected_engine_no_audio_is_silent:
  "(transcribeLocalWhisper w model = Inr result
      \<and> r_success result = Some False \<and> r_message result = Some ''No audio detected''
      \<longrightarrow> processWithLocalWhisper w m model
            = (Inl ''No audio detected'', m, [EngineCalled LocalWhisper]))
   \<and> (transcribeLocalParakeet w model = Inr result
      \<and> r_success result = Some False \<and> r_message result = Some ''No audio detected''
      \<longrightarrow> processWithLocalParakeet w m model
            = (Inl ''No audio detected'', m, [EngineCalled LocalParakeet]))
   \<and> (dispatch w m = (Inl ''No audio detected'', m1, sigs)
      \<longrightarrow> processAudio w m = (m1\<lparr>isProcessing := False\<rparr>, sigs @ [StateChange False False]))"
  by (simp add: processWithLocalWhisper_def processWithLocalParakeet_def localCatch_def
      localTry_def processAudio_def)




end
